theory Spec2Isabelle
  imports Complex_Main
begin

section \<open>Python and NumPy values\<close>

text \<open>
  Exceptions of the Python runtime that the modelled functions can raise, and the
  TypingError of numba, raised when a function compiled in nopython mode cannot be
  typed.  A function that can raise returns \<open>error + 'a\<close>, with \<open>Inl\<close> the exception.
\<close>

datatype error =
    ValueError
  | IndexError
  | ZeroDivisionError
  | OverflowError
  | UnboundLocalError
  | NameError
  | AssertionError
  | TypeError
  | TypingError

text \<open>
  Sequencing of computations that can raise: the first exception is the result.
\<close>

definition ebind :: "error + 'a \<Rightarrow> ('a \<Rightarrow> error + 'b) \<Rightarrow> error + 'b" where
  "ebind m f = (case m of Inl e \<Rightarrow> Inl e | Inr x \<Rightarrow> f x)"

text \<open>
  A NumPy floating-point scalar.  The finite values are real numbers (the sign of
  zero is outside this embedding) and the operations \<open>np_add\<close>, \<open>np_mul\<close>, \<open>np_div\<close> below
  are exact on them; the delay model, where the rounding decides an integer, rounds
  every operation to float64.  The three non-finite values IEEE arithmetic produces
  are kept, because NumPy scalar arithmetic returns them (with a RuntimeWarning)
  where Python's own floats raise.
\<close>

datatype npfloat = Fin real | PInf | NInf | NaN

fun np_neg :: "npfloat \<Rightarrow> npfloat" where
  "np_neg (Fin x) = Fin (- x)"
| "np_neg PInf = NInf"
| "np_neg NInf = PInf"
| "np_neg NaN = NaN"

fun np_add :: "npfloat \<Rightarrow> npfloat \<Rightarrow> npfloat" where
  "np_add NaN _ = NaN"
| "np_add _ NaN = NaN"
| "np_add (Fin x) (Fin y) = Fin (x + y)"
| "np_add PInf NInf = NaN"
| "np_add NInf PInf = NaN"
| "np_add PInf _ = PInf"
| "np_add NInf _ = NInf"
| "np_add (Fin x) PInf = PInf"
| "np_add (Fin x) NInf = NInf"

definition np_sub :: "npfloat \<Rightarrow> npfloat \<Rightarrow> npfloat" where
  "np_sub a b = np_add a (np_neg b)"

text \<open>The sign of an infinite or finite operand: 1, 0 or -1 (not used on NaN).\<close>

fun np_sgn :: "npfloat \<Rightarrow> int" where
  "np_sgn (Fin x) = (if 0 < x then 1 else if x < 0 then - 1 else 0)"
| "np_sgn PInf = 1"
| "np_sgn NInf = - 1"
| "np_sgn NaN = 0"

definition np_inf_of_sign :: "int \<Rightarrow> npfloat" where
  "np_inf_of_sign s = (if 0 < s then PInf else if s < 0 then NInf else NaN)"

fun np_mul :: "npfloat \<Rightarrow> npfloat \<Rightarrow> npfloat" where
  "np_mul NaN _ = NaN"
| "np_mul _ NaN = NaN"
| "np_mul (Fin x) (Fin y) = Fin (x * y)"
| "np_mul a b = np_inf_of_sign (np_sgn a * np_sgn b)"

text \<open>
  Division of NumPy scalars: a finite non-zero value over zero is an infinity, zero
  over zero is NaN, and nothing is raised.
\<close>

fun np_div :: "npfloat \<Rightarrow> npfloat \<Rightarrow> npfloat" where
  "np_div NaN _ = NaN"
| "np_div _ NaN = NaN"
| "np_div (Fin x) (Fin y) =
     (if y \<noteq> 0 then Fin (x / y)
      else if 0 < x then PInf else if x < 0 then NInf else NaN)"
| "np_div (Fin x) PInf = Fin 0"
| "np_div (Fin x) NInf = Fin 0"
| "np_div PInf (Fin y) = (if 0 \<le> y then PInf else NInf)"
| "np_div NInf (Fin y) = (if 0 \<le> y then NInf else PInf)"
| "np_div PInf _ = NaN"
| "np_div NInf _ = NaN"

text \<open>The comparison \<open>a > b\<close>: false as soon as an operand is NaN.\<close>

fun np_gt :: "npfloat \<Rightarrow> npfloat \<Rightarrow> bool" where
  "np_gt NaN _ = False"
| "np_gt _ NaN = False"
| "np_gt (Fin x) (Fin y) = (y < x)"
| "np_gt PInf PInf = False"
| "np_gt PInf _ = True"
| "np_gt NInf _ = False"
| "np_gt (Fin x) NInf = True"
| "np_gt (Fin x) PInf = False"

text \<open>
  Python's \<open>int(x)\<close> on a float: truncation toward zero; \<open>int(inf)\<close> raises
  OverflowError and \<open>int(nan)\<close> raises ValueError.
\<close>

definition trunc_real :: "real \<Rightarrow> int" where
  "trunc_real x = (if 0 \<le> x then \<lfloor>x\<rfloor> else \<lceil>x\<rceil>)"

fun py_int :: "npfloat \<Rightarrow> error + int" where
  "py_int (Fin x) = Inr (trunc_real x)"
| "py_int PInf = Inl OverflowError"
| "py_int NInf = Inl OverflowError"
| "py_int NaN = Inl ValueError"

text \<open>
  \<^verbatim>\<open>np.round(x, 0)\<close> rounds to the nearest integer, a tie to the even neighbour.
\<close>

definition np_round :: "real \<Rightarrow> int" where
  "np_round x =
     (let f = \<lfloor>x\<rfloor>; d = x - of_int f in
      if d < 1 / 2 then f
      else if 1 / 2 < d then f + 1
      else if even f then f else f + 1)"

section \<open>The delay model: \<open>util.calc_delay\<close>\<close>

subsection \<open>Float64 arithmetic\<close>

text \<open>
  Python floats and NumPy float64 scalars are IEEE binary64 numbers, and an operation
  returns the exact result rounded to the nearest binary64 number, a tie to the one
  with an even significand.  \<open>float_exp x\<close> is the binary exponent of a non-zero \<open>x\<close>
  (the integer \<open>e\<close> with \<open>2^e \<le> |x| < 2^(e+1)\<close>), found from the bit length of the integer
  part, or of the inverse for \<open>|x| < 1\<close>; \<open>fl64 x\<close> rounds \<open>x\<close> to 53 significant bits at
  that exponent (at exponent -1022 for the subnormal numbers) and overflows to an
  infinity from \<open>2^1024\<close> on.
\<close>

fun bit_length :: "nat \<Rightarrow> nat" where
  "bit_length n = (if n = 0 then 0 else Suc (bit_length (n div 2)))"

declare bit_length.simps [simp del]

definition float_exp :: "real \<Rightarrow> int" where
  "float_exp x =
     (if 1 \<le> \<bar>x\<bar> then int (bit_length (nat \<lfloor>\<bar>x\<bar>\<rfloor>)) - 1
      else - int (bit_length (nat (\<lceil>1 / \<bar>x\<bar>\<rceil> - 1))))"

definition pow2 :: "int \<Rightarrow> real" where
  "pow2 e = (if 0 \<le> e then 2 ^ nat e else 1 / 2 ^ nat (- e))"

definition fl64 :: "real \<Rightarrow> npfloat" where
  "fl64 x =
     (if x = 0 then Fin 0
      else
        (let u = pow2 (max (float_exp x) (- 1022) - 52);
             r = u * of_int (np_round (x / u))
         in if 2 ^ 1024 \<le> \<bar>r\<bar> then (if 0 < x then PInf else NInf) else Fin r))"

text \<open>
  The float operations of the delay expression: on finite operands the rounded exact
  result, otherwise the rules of the infinities and NaN.  A finite value over zero is
  an infinity or NaN for NumPy scalars, and nothing is raised.
\<close>

fun fl_mul :: "npfloat \<Rightarrow> npfloat \<Rightarrow> npfloat" where
  "fl_mul (Fin x) (Fin y) = fl64 (x * y)"
| "fl_mul a b = np_mul a b"

fun fl_sub :: "npfloat \<Rightarrow> npfloat \<Rightarrow> npfloat" where
  "fl_sub (Fin x) (Fin y) = fl64 (x - y)"
| "fl_sub a b = np_sub a b"

fun fl_div :: "npfloat \<Rightarrow> npfloat \<Rightarrow> npfloat" where
  "fl_div (Fin x) (Fin y) = (if y \<noteq> 0 then fl64 (x / y) else np_div (Fin x) (Fin y))"
| "fl_div a b = np_div a b"

subsection \<open>The delays\<close>

text \<open>
  \<^verbatim>\<open>scale = 4.1488e-3 if not scale else scale\<close>: the default is taken when no scale is
  passed and also when the scale passed is 0 (which is falsy).  The literal
  \<^verbatim>\<open>4.1488e-3\<close> denotes the float64 nearest to 0.0041488, which is
  \<open>4783240738312887 / 2^60\<close>.
\<close>

definition default_scale :: real where
  "default_scale = 4783240738312887 / 2 ^ 60"

definition scale_or_default :: "real option \<Rightarrow> real" where
  "scale_or_default scale =
     (case scale of None \<Rightarrow> default_scale
      | Some s \<Rightarrow> if s = 0 then default_scale else s)"

text \<open>
  The float expression of one channel,
  \<^verbatim>\<open>scale * dm * (1./freq[i]**2 - 1./freqref**2)/inttime\<close>, evaluated in float64 from
  left to right: every argument is a float64 value, every operation rounds, and the
  square is the rounded product.  The frequencies are NumPy scalars (the callers pass
  \<open>st.freq\<close> and \<open>st.freq.max()\<close>), so a zero frequency or integration time gives an
  infinity or NaN, which \<open>int\<close> then refuses.
\<close>

definition delay_expr :: "real \<Rightarrow> real \<Rightarrow> real \<Rightarrow> real \<Rightarrow> real \<Rightarrow> npfloat" where
  "delay_expr scale dm f freqref inttime =
     fl_div
       (fl_mul (fl_mul (Fin scale) (Fin dm))
          (fl_sub (fl_div (Fin 1) (fl_mul (Fin f) (Fin f)))
                  (fl_div (Fin 1) (fl_mul (Fin freqref) (Fin freqref)))))
       (Fin inttime)"

text \<open>
  \<^verbatim>\<open>delay[i] = int(...)\<close> stores into an int32 array: a value outside the int32 range
  is modelled as OverflowError.
\<close>

definition store_int32 :: "int \<Rightarrow> error + int" where
  "store_int32 v = (if - (2 ^ 31) \<le> v \<and> v < 2 ^ 31 then Inr v else Inl OverflowError)"

definition delay_elem :: "real \<Rightarrow> real \<Rightarrow> real \<Rightarrow> real \<Rightarrow> real \<Rightarrow> error + int" where
  "delay_elem scale dm freqref inttime f =
     (case py_int (delay_expr scale dm f freqref inttime) of
        Inl e \<Rightarrow> Inl e
      | Inr v \<Rightarrow> store_int32 v)"

text \<open>The loop \<^verbatim>\<open>for i in range(len(freq))\<close>: the first channel that raises ends it.\<close>

fun calc_delay_loop :: "real \<Rightarrow> real \<Rightarrow> real \<Rightarrow> real \<Rightarrow> real list \<Rightarrow> error + int list" where
  "calc_delay_loop scale dm freqref inttime [] = Inr []"
| "calc_delay_loop scale dm freqref inttime (f # fs) =
     (case delay_elem scale dm freqref inttime f of
        Inl e \<Rightarrow> Inl e
      | Inr d \<Rightarrow>
          (case calc_delay_loop scale dm freqref inttime fs of
             Inl e \<Rightarrow> Inl e
           | Inr ds \<Rightarrow> Inr (d # ds)))"

definition calc_delay :: "real list \<Rightarrow> real \<Rightarrow> real \<Rightarrow> real \<Rightarrow> real option \<Rightarrow> error + int list" where
  "calc_delay freq freqref dm inttime scale =
     calc_delay_loop (scale_or_default scale) dm freqref inttime freq"

text \<open>
  The floor that the docstring of \<open>calc_delay\<close> names, on the same float value:
  \<^verbatim>\<open>np.floor\<close> of the expression, stored in the int32 array.
\<close>

definition floor_delay :: "real \<Rightarrow> real \<Rightarrow> real \<Rightarrow> real \<Rightarrow> real \<Rightarrow> error + int" where
  "floor_delay scale dm freqref inttime f =
     (case delay_expr scale dm f freqref inttime of
        Fin x \<Rightarrow> store_int32 \<lfloor>x\<rfloor>
      | NaN \<Rightarrow> Inl ValueError
      | _ \<Rightarrow> Inl OverflowError)"

section \<open>Image statistics: \<open>util.madtostd\<close> and the peak SNR\<close>

text \<open>
  \<^verbatim>\<open>np.median\<close> of the flattened array: the middle element of the sorted values,
  the mean of the two middle elements for an even count, NaN for an empty array.
\<close>

definition np_median :: "real list \<Rightarrow> npfloat" where
  "np_median xs =
     (let s = sort xs; n = length s in
      if n = 0 then NaN
      else if odd n then Fin (s ! (n div 2))
      else Fin ((s ! (n div 2 - 1) + s ! (n div 2)) / 2))"

text \<open>\<^verbatim>\<open>madtostd(array) = 1.4826*np.median(np.abs(array-np.median(array)))\<close>.\<close>

definition madtostd :: "real list \<Rightarrow> npfloat" where
  "madtostd array =
     (case np_median array of
        Fin m \<Rightarrow> np_mul (Fin (14826 / 10000)) (np_median (map (\<lambda>x. \<bar>x - m\<bar>) array))
      | _ \<Rightarrow> NaN)"

text \<open>
  \<^verbatim>\<open>array.max()\<close> raises ValueError on an empty array.
\<close>

definition np_max :: "real list \<Rightarrow> error + real" where
  "np_max xs = (case xs of [] \<Rightarrow> Inl ValueError | x # ys \<Rightarrow> Inr (fold max ys x))"

text \<open>
  A real-valued NumPy array of two or three dimensions: \<open>grid_image\<close> returns a stack
  of images, the loop over \<open>images\<close> sees one image of it.
\<close>

datatype ndimage = Image2 "real list list" | Image3 "real list list list"

fun pixels :: "ndimage \<Rightarrow> real list" where
  "pixels (Image2 rows) = concat rows"
| "pixels (Image3 ims) = concat (map concat ims)"

text \<open>
  The FFTW path (\<open>search_thresh_fftw\<close>):
  \<^verbatim>\<open>peak_snr = image.max()/util.madtostd(image)\<close>, with no test of the divisor.
\<close>

definition peak_snr_fftw :: "ndimage \<Rightarrow> error + npfloat" where
  "peak_snr_fftw img =
     (case np_max (pixels img) of
        Inl e \<Rightarrow> Inl e
      | Inr mx \<Rightarrow> Inr (np_div (Fin mx) (madtostd (pixels img))))"

text \<open>
  The GPU path (\<open>dedisperse_image_cuda\<close>), on the statistics rfgpu returns:
  \<^verbatim>\<open>if stats['rms'] != 0.: peak_snr = stats['max']/stats['rms']
  else: peak_snr = 0.\<close>
\<close>

definition peak_snr_cuda :: "npfloat \<Rightarrow> npfloat \<Rightarrow> npfloat" where
  "peak_snr_cuda stats_max stats_rms =
     (if stats_rms \<noteq> Fin 0 then np_div stats_max stats_rms else Fin 0)"

section \<open>Kalman significance\<close>

text \<open>
  The values \<open>kalman_significance\<close> handles without looking at their type: a float,
  a list, or a tuple.
\<close>

datatype pyval = PFloat npfloat | PList "pyval list" | PTuple "pyval list"

fun py_len :: "pyval \<Rightarrow> error + nat" where
  "py_len (PFloat x) = Inl TypeError"
| "py_len (PList xs) = Inr (length xs)"
| "py_len (PTuple xs) = Inr (length xs)"

fun py_items :: "pyval \<Rightarrow> error + pyval list" where
  "py_items (PFloat x) = Inl TypeError"
| "py_items (PList xs) = Inr xs"
| "py_items (PTuple xs) = Inr xs"

text \<open>\<^verbatim>\<open>seq[i]\<close> for an index that is not negative.\<close>

definition py_item :: "pyval \<Rightarrow> nat \<Rightarrow> error + pyval" where
  "py_item v i =
     ebind (py_items v) (\<lambda>xs. if i < length xs then Inr (xs ! i) else Inl IndexError)"

text \<open>\<^verbatim>\<open>[x*np.median(spec_std) for x in [0.3, 0.1, 0.03, 0.01]]\<close>\<close>

definition default_sig_ts :: "real list \<Rightarrow> npfloat list" where
  "default_sig_ts spec_std =
     map (\<lambda>x. np_mul (Fin x) (np_median spec_std)) [3 / 10, 1 / 10, 3 / 100, 1 / 100]"

text \<open>
  \<open>kalman_prepare_coeffs(data_std, sig_ts)\<close>.  For every smoothness scale the function
  runs \<open>n_trial = 10000\<close> trials, each of which starts with
  \<^verbatim>\<open>np.random.normal(0, data_std, size=nchan)\<close>: NumPy raises ValueError
  (\<^verbatim>\<open>scale < 0\<close>) when an entry of \<open>data_std\<close> is negative, before anything is drawn.
  The rest of the Monte-Carlo fit of one scale (the random spectra through the filter
  detector, percentiles and \<open>np.polyfit\<close>) is random floating-point numerics and is the
  parameter \<open>mc_fit\<close>: it returns the fitted coefficients or raises.  The function
  returns the tuple \<^verbatim>\<open>(sig_ts, coeffs)\<close>.
\<close>

definition fit_scale ::
  "(real list \<Rightarrow> pyval \<Rightarrow> error + pyval) \<Rightarrow> real list \<Rightarrow> pyval \<Rightarrow> error + pyval" where
  "fit_scale mc_fit data_std sig_t =
     (if list_ex (\<lambda>x. x < 0) data_std then Inl ValueError else mc_fit data_std sig_t)"

fun prepare_loop :: "(pyval \<Rightarrow> error + pyval) \<Rightarrow> pyval list \<Rightarrow> error + pyval list" where
  "prepare_loop fit [] = Inr []"
| "prepare_loop fit (sig_t # rest) =
     ebind (fit sig_t) (\<lambda>c. ebind (prepare_loop fit rest) (\<lambda>cs. Inr (c # cs)))"

definition kalman_prepare_coeffs ::
  "(real list \<Rightarrow> pyval \<Rightarrow> error + pyval) \<Rightarrow> real list \<Rightarrow> pyval option \<Rightarrow> error + pyval" where
  "kalman_prepare_coeffs mc_fit data_std sig_ts =
     (let sig_ts1 =
        (case sig_ts of
           None \<Rightarrow> PList (map PFloat (default_sig_ts data_std))
         | Some (PList xs) \<Rightarrow> PList xs
         | Some v \<Rightarrow> PList [v])
      in ebind (py_items sig_ts1) (\<lambda>scales.
         ebind (prepare_loop (fit_scale mc_fit data_std) scales) (\<lambda>coeffs.
         Inr (PTuple [sig_ts1, PList coeffs]))))"

text \<open>
  \<^verbatim>\<open>x_coeff, const_coeff = coeff\<close> unpacks a sequence of exactly two items;
  \<^verbatim>\<open>x_coeff * score + const_coeff\<close> is taken on floats.
\<close>

fun unpack2 :: "pyval \<Rightarrow> error + pyval \<times> pyval" where
  "unpack2 (PFloat x) = Inl TypeError"
| "unpack2 (PList xs) = (case xs of [a, b] \<Rightarrow> Inr (a, b) | _ \<Rightarrow> Inl ValueError)"
| "unpack2 (PTuple xs) = (case xs of [a, b] \<Rightarrow> Inr (a, b) | _ \<Rightarrow> Inl ValueError)"

fun as_float :: "pyval \<Rightarrow> error + npfloat" where
  "as_float (PFloat x) = Inr x"
| "as_float _ = Inl TypeError"

definition np_maximum :: "npfloat \<Rightarrow> npfloat \<Rightarrow> npfloat" where
  "np_maximum a b = (if a = NaN \<or> b = NaN then NaN else if np_gt b a then b else a)"

definition np_max_floats :: "npfloat list \<Rightarrow> error + npfloat" where
  "np_max_floats xs = (case xs of [] \<Rightarrow> Inl ValueError | x # ys \<Rightarrow> Inr (fold np_maximum ys x))"

text \<open>
  The loop \<^verbatim>\<open>for i, sig_t in enumerate(sig_ts)\<close> of \<open>kalman_significance\<close>; \<open>kfd\<close> is
  the filter detector on the spectrum at hand (floating-point numerics, a parameter).
\<close>

fun significance_loop ::
  "(pyval \<Rightarrow> error + npfloat) \<Rightarrow> pyval \<Rightarrow> nat \<Rightarrow> pyval list \<Rightarrow> error + npfloat list" where
  "significance_loop kfd coeffs i [] = Inr []"
| "significance_loop kfd coeffs i (sig_t # rest) =
     ebind (kfd sig_t) (\<lambda>score.
     ebind (py_item coeffs i) (\<lambda>coeff.
     ebind (unpack2 coeff) (\<lambda>(x_coeff, const_coeff).
     ebind (as_float x_coeff) (\<lambda>a.
     ebind (as_float const_coeff) (\<lambda>b.
     ebind (significance_loop kfd coeffs (Suc i) rest) (\<lambda>more.
     Inr (np_add (np_mul a score) b # more)))))))"

definition kalman_significance ::
  "(real list \<Rightarrow> real list \<Rightarrow> pyval \<Rightarrow> error + npfloat) \<Rightarrow>
   (real list \<Rightarrow> pyval \<Rightarrow> error + pyval) \<Rightarrow>
   real list \<Rightarrow> real list \<Rightarrow> pyval \<Rightarrow> pyval \<Rightarrow> error + npfloat" where
  "kalman_significance kfd mc_fit spec spec_std sig_ts coeffs =
     ebind (py_len sig_ts) (\<lambda>n.
     let sig_ts1 = (if n = 0 then PList (map PFloat (default_sig_ts spec_std)) else sig_ts) in
     ebind (py_len coeffs) (\<lambda>m.
     ebind (if m = 0 then kalman_prepare_coeffs mc_fit spec_std (Some sig_ts1) else Inr coeffs)
       (\<lambda>coeffs1.
     ebind (py_len sig_ts1) (\<lambda>a.
     ebind (py_len coeffs1) (\<lambda>b.
     if a \<noteq> b then Inl AssertionError
     else
       ebind (py_items sig_ts1) (\<lambda>scales.
       ebind (significance_loop (kfd spec spec_std) coeffs1 0 scales) (\<lambda>significances.
       ebind (np_max_floats significances) (\<lambda>best.
       Inr (np_mul best (Fin (ln 2)))))))))))"

section \<open>Visibility cubes\<close>

text \<open>
  A visibility cube is a four-dimensional array of complex samples, indexed
  (integration, baseline, channel, polarization), here a nested list.  A NumPy array
  is rectangular: \<open>cube_shape data (nint, nbl, nchan, npol)\<close> says so.
\<close>

type_synonym cube = "complex list list list list"

definition cube_shape :: "cube \<Rightarrow> nat \<times> nat \<times> nat \<times> nat \<Rightarrow> bool" where
  "cube_shape data sh =
     (case sh of (nint, nbl, nchan, npol) \<Rightarrow>
        length data = nint \<and>
        (\<forall>b \<in> set data. length b = nbl \<and>
           (\<forall>c \<in> set b. length c = nchan \<and>
              (\<forall>p \<in> set c. length p = npol))))"

text \<open>\<^verbatim>\<open>data.shape\<close>, read off the first element along each axis.\<close>

definition len1 :: "'a list list \<Rightarrow> nat" where
  "len1 xs = (case xs of [] \<Rightarrow> 0 | x # _ \<Rightarrow> length x)"

definition shape :: "cube \<Rightarrow> nat \<times> nat \<times> nat \<times> nat" where
  "shape data =
     (length data, len1 data, len1 (concat data), len1 (concat (concat data)))"

text \<open>\<^verbatim>\<open>np.any(data)\<close>: some sample is not zero.\<close>

definition np_any :: "cube \<Rightarrow> bool" where
  "np_any data = list_ex (\<lambda>x. x \<noteq> 0) (concat (concat (concat data)))"

text \<open>\<^verbatim>\<open>np.zeros(shape=newsh, dtype=data.dtype)\<close>\<close>

definition np_zeros :: "nat \<times> nat \<times> nat \<times> nat \<Rightarrow> cube" where
  "np_zeros sh =
     (case sh of (n0, n1, n2, n3) \<Rightarrow>
        replicate n0 (replicate n1 (replicate n2 (replicate n3 0))))"

text \<open>Reading and writing one sample at indices inside the array.\<close>

definition get4 :: "cube \<Rightarrow> nat \<Rightarrow> nat \<Rightarrow> nat \<Rightarrow> nat \<Rightarrow> complex" where
  "get4 a i j k l = a ! i ! j ! k ! l"

definition upd4 :: "cube \<Rightarrow> nat \<Rightarrow> nat \<Rightarrow> nat \<Rightarrow> nat \<Rightarrow> complex \<Rightarrow> cube" where
  "upd4 a i j k l v =
     a[i := (a ! i)[j := (a ! i ! j)[k := (a ! i ! j ! k)[l := v]]]]"

text \<open>
  An index computed at run time: a negative index counts from the end, and an index
  outside the axis is IndexError.
\<close>

definition py_index :: "nat \<Rightarrow> int \<Rightarrow> error + nat" where
  "py_index n i =
     (if 0 \<le> i \<and> i < int n then Inr (nat i)
      else if - int n \<le> i \<and> i < 0 then Inr (nat (i + int n))
      else Inl IndexError)"

text \<open>\<^verbatim>\<open>data[iprime, j, k, l]\<close> with a computed time index.\<close>

definition rd4 :: "cube \<Rightarrow> int \<Rightarrow> nat \<Rightarrow> nat \<Rightarrow> nat \<Rightarrow> error + complex" where
  "rd4 data iprime j k l =
     ebind (py_index (length data) iprime) (\<lambda>i. Inr (get4 data i j k l))"

text \<open>\<^verbatim>\<open>delay[k]\<close> and \<^verbatim>\<open>delay.max()\<close> (ValueError on an empty array).\<close>

definition rd_delay :: "int list \<Rightarrow> nat \<Rightarrow> error + int" where
  "rd_delay delay k = (if k < length delay then Inr (delay ! k) else Inl IndexError)"

definition delay_max :: "int list \<Rightarrow> error + int" where
  "delay_max delay = (case delay of [] \<Rightarrow> Inl ValueError | d # ds \<Rightarrow> Inr (fold max ds d))"

text \<open>The slice \<^verbatim>\<open>data[0:n]\<close>: a negative stop counts from the end.\<close>

definition py_slice0 :: "'a list \<Rightarrow> int \<Rightarrow> 'a list" where
  "py_slice0 xs n = (if 0 \<le> n then take (nat n) xs else take (nat (int (length xs) + n)) xs)"

text \<open>
  A \<^verbatim>\<open>for\<close> loop over a list of indices whose body can raise: the state is threaded
  through, and the first exception ends the loop.
\<close>

fun for_each :: "('a \<Rightarrow> 's \<Rightarrow> error + 's) \<Rightarrow> 'a list \<Rightarrow> 's \<Rightarrow> error + 's" where
  "for_each body [] s = Inr s"
| "for_each body (x # xs) s = ebind (body x s) (for_each body xs)"

text \<open>\<^verbatim>\<open>range(n)\<close> for an integer \<open>n\<close>: empty when \<open>n\<close> is not positive.\<close>

definition py_range :: "int \<Rightarrow> nat list" where
  "py_range n = [0..<nat n]"

section \<open>Dedispersion and resampling kernels\<close>

subsection \<open>\<open>dedisperse\<close>\<close>

text \<open>
  \<open>_dedisperse_jit\<close>: loops over channel, output integration, polarization and
  baseline, copying \<^verbatim>\<open>data[i + delay[k], j, k, l]\<close> to \<^verbatim>\<open>result[i, j, k, l]\<close>.
\<close>

definition dedisperse_jit_cell ::
  "cube \<Rightarrow> int \<Rightarrow> nat \<Rightarrow> nat \<Rightarrow> nat \<Rightarrow> nat \<Rightarrow> cube \<Rightarrow> error + cube" where
  "dedisperse_jit_cell data iprime k i l j result =
     ebind (rd4 data iprime j k l) (\<lambda>val. Inr (upd4 result i j k l val))"

definition dedisperse_jit :: "cube \<Rightarrow> int list \<Rightarrow> cube \<Rightarrow> error + cube" where
  "dedisperse_jit data delay result =
     (case shape data of (nint, nbl, nchan, npol) \<Rightarrow>
        for_each (\<lambda>k.
          (\<lambda>res. ebind (delay_max delay) (\<lambda>dmax.
            for_each (\<lambda>i.
              (\<lambda>res1. ebind (rd_delay delay k) (\<lambda>d.
                for_each (\<lambda>l.
                  for_each (\<lambda>j. dedisperse_jit_cell data (int i + d) k i l j)
                    [0..<nbl])
                  [0..<npol] res1)))
              (py_range (int nint - dmax)) res)))
          [0..<nchan] result)"

text \<open>
  \<open>_dedisperse_gu\<close>: the kernel of one baseline \<open>j\<close>, which rewrites the cube in place,
  and the generalized ufunc that runs it on every baseline.
\<close>

definition dedisperse_gu_kernel :: "int list \<Rightarrow> nat \<Rightarrow> cube \<Rightarrow> error + cube" where
  "dedisperse_gu_kernel delay j data =
     ebind (delay_max delay) (\<lambda>dmax.
       if 0 < dmax then
         (case shape data of (nint, nbl, nchan, npol) \<Rightarrow>
            for_each (\<lambda>i.
              for_each (\<lambda>k.
                (\<lambda>dat. ebind (rd_delay delay k) (\<lambda>d.
                  for_each (\<lambda>l.
                    (\<lambda>dat1. ebind (rd4 dat1 (int i + d) j k l) (\<lambda>val.
                      Inr (upd4 dat1 i j k l val))))
                    [0..<npol] dat)))
                [0..<nchan])
              (py_range (int nint - dmax)) data)
       else Inr data)"

definition dedisperse_gu :: "cube \<Rightarrow> int list \<Rightarrow> error + cube" where
  "dedisperse_gu data delay =
     (case shape data of (nint, nbl, nchan, npol) \<Rightarrow>
        for_each (dedisperse_gu_kernel delay) [0..<nbl] data)"

definition dedisperse :: "cube \<Rightarrow> int list \<Rightarrow> bool \<Rightarrow> error + cube" where
  "dedisperse data delay parallel =
     (if \<not> np_any data then Inr []
      else
        ebind (delay_max delay) (\<lambda>dmax.
          (case shape data of (nint, nbl, nchan, npol) \<Rightarrow>
             if parallel then
               ebind (dedisperse_gu data delay) (\<lambda>dat.
                 Inr (py_slice0 dat (int (length dat) - dmax)))
             else if int nint - dmax < 0 then Inl ValueError
             else dedisperse_jit data delay (np_zeros (nat (int nint - dmax), nbl, nchan, npol)))))"

subsection \<open>\<open>resample\<close>\<close>

text \<open>
  \<open>_resample_jit\<close>: every output sample is the sum of \<open>dt\<close> consecutive input samples
  divided by \<open>dt\<close>, zeros included.
\<close>

definition resample_jit_cell ::
  "cube \<Rightarrow> int \<Rightarrow> nat \<Rightarrow> nat \<Rightarrow> nat \<Rightarrow> nat \<Rightarrow> cube \<Rightarrow> error + cube" where
  "resample_jit_cell data dt j k l i result =
     (let iprime = int i * dt in
      ebind (rd4 data iprime j k l) (\<lambda>first.
      ebind (for_each (\<lambda>r res.
               ebind (rd4 data (iprime + int r) j k l) (\<lambda>val.
                 Inr (upd4 res i j k l (get4 res i j k l + val))))
             [1..<nat dt] (upd4 result i j k l first)) (\<lambda>res.
      Inr (upd4 res i j k l (get4 res i j k l / of_int dt)))))"

definition resample_jit :: "cube \<Rightarrow> int \<Rightarrow> cube \<Rightarrow> error + cube" where
  "resample_jit data dt result =
     (case shape data of (nint, nbl, nchan, npol) \<Rightarrow>
        if dt = 0 then Inl ZeroDivisionError
        else
          for_each (\<lambda>j.
            for_each (\<lambda>k.
              for_each (\<lambda>l.
                for_each (\<lambda>i. resample_jit_cell data dt j k l i)
                  (py_range (int nint div dt)))
                [0..<npol])
              [0..<nchan])
            [0..<nbl] result)"

text \<open>
  \<open>_resample_gu\<close>: the kernel of one time series (baseline \<open>j\<close>, channel \<open>k\<close>,
  polarization \<open>l\<close>), in place.
\<close>

definition resample_gu_kernel :: "int \<Rightarrow> nat \<Rightarrow> nat \<Rightarrow> nat \<Rightarrow> cube \<Rightarrow> error + cube" where
  "resample_gu_kernel dt j k l data =
     (if 1 < dt then
        for_each (\<lambda>i dat.
          (let iprime = int i * dt in
           ebind (rd4 dat iprime j k l) (\<lambda>first.
           ebind (for_each (\<lambda>r dat1.
                    ebind (rd4 dat1 (iprime + int r) j k l) (\<lambda>val.
                      Inr (upd4 dat1 i j k l (get4 dat1 i j k l + val))))
                  [1..<nat dt] (upd4 dat i j k l first)) (\<lambda>dat2.
           Inr (upd4 dat2 i j k l (get4 dat2 i j k l / of_int dt))))))
          (py_range (int (length data) div dt)) data
      else Inr data)"

definition resample_gu :: "cube \<Rightarrow> int \<Rightarrow> error + cube" where
  "resample_gu data dt =
     (case shape data of (nint, nbl, nchan, npol) \<Rightarrow>
        for_each (\<lambda>l.
          for_each (\<lambda>j.
            for_each (\<lambda>k. resample_gu_kernel dt j k l)
              [0..<nchan])
            [0..<nbl])
          [0..<npol] data)"

definition resample :: "cube \<Rightarrow> int \<Rightarrow> bool \<Rightarrow> error + cube" where
  "resample data dt parallel =
     (if \<not> np_any data then Inr []
      else
        (case shape data of (nint, nbl, nchan, npol) \<Rightarrow>
           if dt = 0 then Inl ZeroDivisionError
           else if parallel then
             ebind (resample_gu data dt) (\<lambda>dat. Inr (py_slice0 dat (int (length data) div dt)))
           else if int nint div dt < 0 then Inl ValueError
           else resample_jit data dt (np_zeros (nat (int nint div dt), nbl, nchan, npol))))"

subsection \<open>\<open>dedisperseresample\<close>\<close>

text \<open>
  \<open>_dedisperseresample_jit\<close>, the body for one output cell: the loop over \<open>r\<close> adds
  \<^verbatim>\<open>data[i*dt + delay[k] + r, j, k, l]\<close> to the cell and counts the samples that are
  not zero; then the cell is divided by the weight, or set to the weight (zero).
\<close>

definition dedisperseresample_jit_step ::
  "cube \<Rightarrow> int list \<Rightarrow> int \<Rightarrow> nat \<Rightarrow> nat \<Rightarrow> nat \<Rightarrow> nat \<Rightarrow> nat \<Rightarrow>
   cube \<times> nat \<Rightarrow> error + cube \<times> nat" where
  "dedisperseresample_jit_step data delay dt i j k l r s =
     (case s of (result, weight) \<Rightarrow>
        ebind (rd_delay delay k) (\<lambda>d.
        ebind (rd4 data (int i * dt + d + int r) j k l) (\<lambda>val.
        Inr (upd4 result i j k l (get4 result i j k l + val),
             if val \<noteq> 0 then weight + 1 else weight))))"

definition dedisperseresample_jit_cell ::
  "cube \<Rightarrow> int list \<Rightarrow> int \<Rightarrow> nat \<Rightarrow> nat \<Rightarrow> nat \<Rightarrow> nat \<Rightarrow> cube \<Rightarrow> error + cube" where
  "dedisperseresample_jit_cell data delay dt j l k i result =
     ebind (for_each (dedisperseresample_jit_step data delay dt i j k l) (py_range dt) (result, 0))
       (\<lambda>(res, weight).
          if 0 < weight then Inr (upd4 res i j k l (get4 res i j k l / of_nat weight))
          else Inr (upd4 res i j k l (of_nat weight)))"

definition dedisperseresample_jit :: "cube \<Rightarrow> int list \<Rightarrow> int \<Rightarrow> cube \<Rightarrow> error + cube" where
  "dedisperseresample_jit data delay dt result =
     (case shape data of (nint, nbl, nchan, npol) \<Rightarrow>
        (let nintout = length result in
         for_each (\<lambda>j.
           for_each (\<lambda>l.
             for_each (\<lambda>k.
               for_each (\<lambda>i. dedisperseresample_jit_cell data delay dt j l k i)
                 [0..<nintout])
               [0..<nchan])
             [0..<npol])
           [0..<nbl] result))"

text \<open>
  \<open>_dedisperseresample_gu\<close>: the kernel of one baseline \<open>j\<close>, in place: the first
  sample overwrites the cell, the later ones are added to it.
\<close>

definition dedisperseresample_gu_step ::
  "int list \<Rightarrow> int \<Rightarrow> nat \<Rightarrow> nat \<Rightarrow> nat \<Rightarrow> nat \<Rightarrow> nat \<Rightarrow>
   cube \<times> nat \<Rightarrow> error + cube \<times> nat" where
  "dedisperseresample_gu_step delay dt i j k l r s =
     (case s of (data, weight) \<Rightarrow>
        ebind (rd_delay delay k) (\<lambda>d.
        ebind (rd4 data (int i * dt + d + int r) j k l) (\<lambda>val.
        Inr (if r = 0 then upd4 data i j k l val
             else upd4 data i j k l (get4 data i j k l + val),
             if val \<noteq> 0 then weight + 1 else weight))))"

definition dedisperseresample_gu_cell ::
  "int list \<Rightarrow> int \<Rightarrow> nat \<Rightarrow> nat \<Rightarrow> nat \<Rightarrow> nat \<Rightarrow> cube \<Rightarrow> error + cube" where
  "dedisperseresample_gu_cell delay dt j l k i data =
     ebind (for_each (dedisperseresample_gu_step delay dt i j k l) (py_range dt) (data, 0))
       (\<lambda>(dat, weight).
          if 0 < weight then Inr (upd4 dat i j k l (get4 dat i j k l / of_nat weight))
          else Inr (upd4 dat i j k l (of_nat weight)))"

definition dedisperseresample_gu_kernel :: "int list \<Rightarrow> int \<Rightarrow> nat \<Rightarrow> cube \<Rightarrow> error + cube" where
  "dedisperseresample_gu_kernel delay dt j data =
     ebind (delay_max delay) (\<lambda>dmax.
       if 0 < dmax \<or> 1 < dt then
         (case shape data of (nint, nbl, nchan, npol) \<Rightarrow>
            for_each (\<lambda>l.
              for_each (\<lambda>k.
                (\<lambda>dat.
                   if dt = 0 then Inl ZeroDivisionError
                   else
                     for_each (\<lambda>i. dedisperseresample_gu_cell delay dt j l k i)
                       (py_range ((int nint - dmax) div dt)) dat))
                [0..<nchan])
              [0..<npol] data)
       else Inr data)"

definition dedisperseresample_gu :: "cube \<Rightarrow> int list \<Rightarrow> int \<Rightarrow> error + cube" where
  "dedisperseresample_gu data delay dt =
     (case shape data of (nint, nbl, nchan, npol) \<Rightarrow>
        for_each (dedisperseresample_gu_kernel delay dt) [0..<nbl] data)"

definition dedisperseresample :: "cube \<Rightarrow> int list \<Rightarrow> int \<Rightarrow> bool \<Rightarrow> error + cube" where
  "dedisperseresample data delay dt parallel =
     (if \<not> np_any data then Inr []
      else
        ebind (delay_max delay) (\<lambda>dmax.
          (case shape data of (nint, nbl, nchan, npol) \<Rightarrow>
             if parallel then
               ebind (dedisperseresample_gu data delay dt) (\<lambda>dat.
                 Inr (py_slice0 dat ((int (length dat) - dmax) div dt)))
             else if (int nint - dmax) div dt < 0 then Inl ValueError
             else dedisperseresample_jit data delay dt
                    (np_zeros (nat ((int nint - dmax) div dt), nbl, nchan, npol)))))"

subsection \<open>The fused kernel as the specification words it\<close>

text \<open>
  The \<open>dt\<close> input samples of output cell \<open>(i, j, k, l)\<close>:
  \<open>in[i*dt + delay[k] + r, j, k, l]\<close> for \<open>r\<close> in \<open>[0, dt)\<close>.
\<close>

definition samples :: "cube \<Rightarrow> int list \<Rightarrow> int \<Rightarrow> nat \<Rightarrow> nat \<Rightarrow> nat \<Rightarrow> nat \<Rightarrow> complex list" where
  "samples data delay dt i j k l =
     map (\<lambda>r. get4 data (nat (int i * dt + delay ! k + int r)) j k l) (py_range dt)"

text \<open>
  The weight of a cell counts the samples that are not zero; the cell is the sum over
  the weight, or zero when the weight is zero.
\<close>

definition weighted_mean :: "complex list \<Rightarrow> complex" where
  "weighted_mean vs =
     (let weight = length (filter (\<lambda>v. v \<noteq> 0) vs) in
      if 0 < weight then sum_list vs / of_nat weight else 0)"

section \<open>Gridding\<close>

text \<open>
  The grids are a three-dimensional complex array indexed (integration, u pixel,
  v pixel).  The coordinates \<open>u\<close> and \<open>v\<close> are arrays of shape (baseline, channel);
  \<open>w\<close> is passed along and never read.
\<close>

type_synonym grids = "complex list list list"

definition grid_shape :: "grids \<Rightarrow> nat \<times> nat \<times> nat \<Rightarrow> bool" where
  "grid_shape g sh =
     (case sh of (nint, nx, ny) \<Rightarrow>
        length g = nint \<and>
        (\<forall>p \<in> set g. length p = nx \<and> (\<forall>c \<in> set p. length c = ny)))"

definition get3 :: "grids \<Rightarrow> nat \<Rightarrow> nat \<Rightarrow> nat \<Rightarrow> complex" where
  "get3 g i a b = g ! i ! a ! b"

definition upd3 :: "grids \<Rightarrow> nat \<Rightarrow> nat \<Rightarrow> nat \<Rightarrow> complex \<Rightarrow> grids" where
  "upd3 g i a b x = g[i := (g ! i)[a := (g ! i ! a)[b := x]]]"

text \<open>\<^verbatim>\<open>grids[i, umod, vmod] += data[i, j, k, l]\<close>\<close>

definition accumulate :: "grids \<Rightarrow> nat \<Rightarrow> nat \<Rightarrow> nat \<Rightarrow> complex \<Rightarrow> grids" where
  "accumulate g i a b x = upd3 g i a b (get3 g i a b + x)"

text \<open>
  \<^verbatim>\<open>int64(x)\<close> on a float, as numba compiles it: the value is truncated toward zero
  and must fit 64 bits.  The conversion of a value outside the 64-bit range has no
  defined result; the x86-64 conversion instruction gives the smallest 64-bit integer,
  which is what is taken here.  \<^verbatim>\<open>np.abs\<close> on a 64-bit integer wraps on that
  smallest integer, the only one whose absolute value does not fit.
\<close>

definition int64 :: "real \<Rightarrow> int" where
  "int64 x =
     (let n = trunc_real x in if - (2 ^ 63) \<le> n \<and> n < 2 ^ 63 then n else - (2 ^ 63))"

definition abs_int64 :: "int \<Rightarrow> int" where
  "abs_int64 n = (if n = - (2 ^ 63) then - (2 ^ 63) else \<bar>n\<bar>)"

text \<open>
  \<open>_grid_visibilities_jit\<close>, the sequential backend.  The coordinates are cast with
  \<^verbatim>\<open>int64(u[j, k]/uvres)\<close>, which truncates; the test is written
  \<^verbatim>\<open>(np.abs(ubl < npixx//2)) and (np.abs(vbl < npixy//2))\<close>, the absolute value
  of a comparison, so it holds exactly when \<open>ubl < npixx//2\<close> and \<open>vbl < npixy//2\<close>.
  A division or a modulo by zero is ZeroDivisionError.
\<close>

definition grid_visibilities_jit ::
  "cube \<Rightarrow> real list list \<Rightarrow> real list list \<Rightarrow> real list list \<Rightarrow> nat \<Rightarrow> nat \<Rightarrow> int \<Rightarrow>
   grids \<Rightarrow> error + grids" where
  "grid_visibilities_jit data u v w npixx npixy uvres grids =
     (case shape data of (nint, nbl, nchan, npol) \<Rightarrow>
        for_each (\<lambda>j.
          for_each (\<lambda>k g.
            if uvres = 0 then Inl ZeroDivisionError
            else
              (let ubl = int64 (u ! j ! k / of_int uvres);
                   vbl = int64 (v ! j ! k / of_int uvres)
               in if ubl < int npixx div 2 \<and> vbl < int npixy div 2 then
                    if npixx = 0 \<or> npixy = 0 then Inl ZeroDivisionError
                    else
                      (let umod = nat (ubl mod int npixx);
                           vmod = nat (vbl mod int npixy)
                       in for_each (\<lambda>i.
                            for_each (\<lambda>l g1.
                              Inr (accumulate g1 i umod vmod (get4 data i j k l)))
                              [0..<npol])
                            [0..<nint] g)
                  else Inr g))
            [0..<nchan])
          [0..<nbl] grids)"

text \<open>
  \<open>_grid_visibilities_gu\<close>, the data-parallel backend: the kernel grids one
  integration \<open>i\<close>, with the coordinates \<^verbatim>\<open>int64(np.round(us[j, k]/uvres, 0))\<close>, the
  rounded quotient cast to 64 bits, and the test on their absolute values; the
  generalized ufunc runs it on every integration.
\<close>

definition grid_visibilities_gu_kernel ::
  "cube \<Rightarrow> real list list \<Rightarrow> real list list \<Rightarrow> real list list \<Rightarrow> nat \<Rightarrow> nat \<Rightarrow> int \<Rightarrow>
   nat \<Rightarrow> grids \<Rightarrow> error + grids" where
  "grid_visibilities_gu_kernel data us vs ws npixx npixy uvres i grid =
     (case shape data of (nint, nbl, nchan, npol) \<Rightarrow>
        for_each (\<lambda>j.
          for_each (\<lambda>k g.
            if uvres = 0 then Inl ZeroDivisionError
            else
              (let ubl = int64 (of_int (np_round (us ! j ! k / of_int uvres)));
                   vbl = int64 (of_int (np_round (vs ! j ! k / of_int uvres)))
               in if abs_int64 ubl < int npixx div 2 \<and> abs_int64 vbl < int npixy div 2 then
                    if npixx = 0 \<or> npixy = 0 then Inl ZeroDivisionError
                    else
                      (let u = nat (ubl mod int npixx);
                           v = nat (vbl mod int npixy)
                       in for_each (\<lambda>l g1.
                            Inr (accumulate g1 i u v (get4 data i j k l)))
                            [0..<npol] g)
                  else Inr g))
            [0..<nchan])
          [0..<nbl] grid)"

definition grid_visibilities_gu ::
  "cube \<Rightarrow> real list list \<Rightarrow> real list list \<Rightarrow> real list list \<Rightarrow> nat \<Rightarrow> nat \<Rightarrow> int \<Rightarrow>
   grids \<Rightarrow> error + grids" where
  "grid_visibilities_gu data us vs ws npixx npixy uvres grids =
     for_each (grid_visibilities_gu_kernel data us vs ws npixx npixy uvres)
       [0..<length data] grids"

definition grid_visibilities ::
  "cube \<Rightarrow> real list list \<times> real list list \<times> real list list \<Rightarrow> nat \<Rightarrow> nat \<Rightarrow> int \<Rightarrow> bool \<Rightarrow>
   error + grids" where
  "grid_visibilities data uvw npixx npixy uvres parallel =
     (case uvw of (u, v, w) \<Rightarrow>
        (let grids = replicate (length data) (replicate npixx (replicate npixy 0))
         in if parallel then grid_visibilities_gu data u v w npixx npixy uvres grids
            else grid_visibilities_jit data u v w npixx npixy uvres grids))"

subsection \<open>The gridder as the specification words it\<close>

text \<open>
  For each (baseline, channel): the rounded coordinates \<open>u' = round(u/cellRes)\<close> and
  \<open>v' = round(v/cellRes)\<close>, with the rounding \<open>rnd\<close> a parameter (\<open>np_round\<close> for the
  specification's \<open>round\<close>); the pair is kept unless \<open>|u'| \<ge> npixx/2\<close> or
  \<open>|v'| \<ge> npixy/2\<close> (the halves are integer halves); the kept coordinates are folded
  into non-negative indices by the modulo; the visibilities of all polarizations are
  added to that cell, for every integration.
\<close>

definition spec_kept ::
  "(real \<Rightarrow> int) \<Rightarrow> real list list \<Rightarrow> real list list \<Rightarrow> nat \<Rightarrow> nat \<Rightarrow> int \<Rightarrow> nat \<Rightarrow> nat \<Rightarrow> bool" where
  "spec_kept rnd u v npixx npixy uvres j k =
     (\<not> (int npixx div 2 \<le> \<bar>rnd (u ! j ! k / of_int uvres)\<bar> \<or>
         int npixy div 2 \<le> \<bar>rnd (v ! j ! k / of_int uvres)\<bar>))"

definition spec_cell ::
  "(real \<Rightarrow> int) \<Rightarrow> real list list \<Rightarrow> real list list \<Rightarrow> nat \<Rightarrow> nat \<Rightarrow> int \<Rightarrow> nat \<Rightarrow> nat \<Rightarrow> nat \<times> nat" where
  "spec_cell rnd u v npixx npixy uvres j k =
     (nat (rnd (u ! j ! k / of_int uvres) mod int npixx),
      nat (rnd (v ! j ! k / of_int uvres) mod int npixy))"

definition grid_spec ::
  "(real \<Rightarrow> int) \<Rightarrow> cube \<Rightarrow> real list list \<Rightarrow> real list list \<Rightarrow> nat \<Rightarrow> nat \<Rightarrow> int \<Rightarrow>
   nat \<Rightarrow> nat \<Rightarrow> nat \<Rightarrow> complex" where
  "grid_spec rnd data u v npixx npixy uvres i a b =
     (case shape data of (nint, nbl, nchan, npol) \<Rightarrow>
        sum_list (map (\<lambda>j.
          sum_list (map (\<lambda>k.
            if spec_kept rnd u v npixx npixy uvres j k \<and>
               spec_cell rnd u v npixx npixy uvres j k = (a, b)
            then sum_list (map (\<lambda>l. get4 data i j k l) [0..<npol])
            else 0) [0..<nchan])) [0..<nbl]))"

text \<open>
  The sequential backend in closed form: the same sum, with the truncated coordinates
  and the one-sided test of \<open>_grid_visibilities_jit\<close>.
\<close>

definition jit_kept :: "real list list \<Rightarrow> real list list \<Rightarrow> nat \<Rightarrow> nat \<Rightarrow> int \<Rightarrow> nat \<Rightarrow> nat \<Rightarrow> bool" where
  "jit_kept u v npixx npixy uvres j k =
     (trunc_real (u ! j ! k / of_int uvres) < int npixx div 2 \<and>
      trunc_real (v ! j ! k / of_int uvres) < int npixy div 2)"

definition jit_cell :: "real list list \<Rightarrow> real list list \<Rightarrow> nat \<Rightarrow> nat \<Rightarrow> int \<Rightarrow> nat \<Rightarrow> nat \<Rightarrow> nat \<times> nat" where
  "jit_cell u v npixx npixy uvres j k =
     (nat (trunc_real (u ! j ! k / of_int uvres) mod int npixx),
      nat (trunc_real (v ! j ! k / of_int uvres) mod int npixy))"

definition jit_closed ::
  "cube \<Rightarrow> real list list \<Rightarrow> real list list \<Rightarrow> nat \<Rightarrow> nat \<Rightarrow> int \<Rightarrow> nat \<Rightarrow> nat \<Rightarrow> nat \<Rightarrow> complex" where
  "jit_closed data u v npixx npixy uvres i a b =
     (case shape data of (nint, nbl, nchan, npol) \<Rightarrow>
        sum_list (map (\<lambda>j.
          sum_list (map (\<lambda>k.
            if jit_kept u v npixx npixy uvres j k \<and>
               jit_cell u v npixx npixy uvres j k = (a, b)
            then sum_list (map (\<lambda>l. get4 data i j k l) [0..<npol])
            else 0) [0..<nchan])) [0..<nbl]))"

definition uv_shape :: "real list list \<Rightarrow> nat \<times> nat \<Rightarrow> bool" where
  "uv_shape u sh = (case sh of (nbl, nchan) \<Rightarrow> length u = nbl \<and> (\<forall>r \<in> set u. length r = nchan))"

text \<open>
  The coordinates, in cells, stay far inside the 64-bit range: every quotient
  \<open>u/uvres\<close> and \<open>v/uvres\<close> is below \<open>2^62\<close> in absolute value.
\<close>

definition uv_bounded :: "real list list \<Rightarrow> real list list \<Rightarrow> int \<Rightarrow> nat \<times> nat \<Rightarrow> bool" where
  "uv_bounded u v uvres sh =
     (case sh of (nbl, nchan) \<Rightarrow>
        (\<forall>j < nbl. \<forall>k < nchan.
           \<bar>u ! j ! k / of_int uvres\<bar> < 2 ^ 62 \<and> \<bar>v ! j ! k / of_int uvres\<bar> < 2 ^ 62))"

definition adds ::
  "nat \<times> nat \<times> nat \<Rightarrow> (grids \<Rightarrow> error + grids) \<Rightarrow> (nat \<Rightarrow> nat \<Rightarrow> nat \<Rightarrow> complex) \<Rightarrow> bool" where
  "adds sh body F =
     (\<forall>g. grid_shape g sh \<longrightarrow>
        (\<exists>g'. body g = Inr g' \<and> grid_shape g' sh \<and>
           (\<forall>i a b. i < fst sh \<longrightarrow> a < fst (snd sh) \<longrightarrow> b < snd (snd sh) \<longrightarrow>
              get3 g' i a b = get3 g i a b + F i a b)))"

section \<open>Searching, imaging and thresholding\<close>

text \<open>
  The preferences and the state of a run, with the fields the search reads.
\<close>

record preferences =
  fftmode :: string
  searchtype :: string
  nthread :: int
  timewindow :: int
  memory_limit :: real
  sigma_kalman :: real
  sigma_arm :: real
  sigma_arms :: real

record search_state =
  prefs :: preferences
  st_npixx :: nat
  st_npixy :: nat
  st_nchan :: nat
  st_npol :: nat
  sigma_image1 :: real
  dmarr :: "real list"
  dtarr :: "int list"
  st_freq :: "real list"
  st_inttime :: real
  st_uvres :: int

text \<open>
  A candidate in flight (\<open>candidates.CandData\<close>): the location
  \<open>(segment, integration, dmind, dtind, beamnum)\<close>, the image, the phased data and
  the optional Kalman and arm scores.
\<close>

record 'd canddata =
  cd_loc :: "nat \<times> int \<times> nat \<times> nat \<times> nat"
  cd_image :: ndimage
  cd_data :: 'd
  cd_snrk :: "npfloat option"
  cd_snrarm :: "real option"

text \<open>
  What the search calls and this repository's sources do not define, or what is
  random or floating-point numerics: the integration-selection policy of the state
  (it returns a list), the baseline coordinates of a segment, the Monte-Carlo
  preparation of the Kalman coefficients (it raises or not), the FFT of the grids
  (\<open>image_fftw\<close>), the combined Kalman and image score of an integration with a given
  peak SNR, the phased and averaged data snippet around an integration, the baselines
  of an arm of the array (the rows of \<open>st.blarr_arms\<close> that name the arm twice), the
  one-dimensional FFT of the arm grids (\<open>image_fftw\<close> with \<^verbatim>\<open>axes=(1,)\<close>), the random
  map \<open>fakemap\<close>, \<open>candidates.calc_features\<close>, \<open>candidates.save_cands\<close>,
  \<open>source.data_prep\<close> and the GPU search built on rfgpu.
  A candidate collection is the list of its feature records; \<open>+=\<close> on collections
  appends.
\<close>

record ('d, 'f) externals =
  get_search_ints :: "nat \<Rightarrow> nat \<Rightarrow> nat \<Rightarrow> int list"
  get_uvw_segment :: "nat \<Rightarrow> real list list \<times> real list list \<times> real list list"
  kalman_prepare :: "cube \<Rightarrow> error option"
  image_fftw :: "grids \<Rightarrow> error + real list list list"
  total_snr :: "cube \<Rightarrow> int \<Rightarrow> npfloat \<Rightarrow> error + npfloat"
  phased_snippet :: "cube \<Rightarrow> int \<Rightarrow> error + 'd"
  blarr_arm :: "string \<Rightarrow> nat list"
  image_fftw_arm :: "complex list list \<Rightarrow> error + real list list"
  fakemap :: "nat \<Rightarrow> real list list"
  calc_features :: "'d canddata list \<Rightarrow> 'f list"
  save_cands :: "'f list \<Rightarrow> error + unit"
  data_prep :: "cube \<Rightarrow> error + cube"
  search_cuda :: "cube \<Rightarrow> error + 'f list"

text \<open>\<^verbatim>\<open>integrations[i]\<close> for an index that is not negative.\<close>

definition nth_or_raise :: "'a list \<Rightarrow> nat \<Rightarrow> error + 'a" where
  "nth_or_raise xs i = (if i < length xs then Inr (xs ! i) else Inl IndexError)"

text \<open>
  \<^verbatim>\<open>data.take(integrations, axis=0)\<close>: a negative index counts from the end, an index
  outside the axis is IndexError.
\<close>

fun np_take :: "'a list \<Rightarrow> int list \<Rightarrow> error + 'a list" where
  "np_take xs [] = Inr []"
| "np_take xs (i # rest) =
     ebind (py_index (length xs) i) (\<lambda>n.
     ebind (np_take xs rest) (\<lambda>more. Inr (xs ! n # more)))"

text \<open>
  \<open>grid_image\<close>, with \<open>integrations\<close> None, an int or a list.  For the mode \<open>fftw\<close>
  the selected integrations are gridded and transformed; for \<open>cuda\<close> the result is
  None (\<open>image_cuda\<close> is a stub); for any other mode \<open>images\<close> is never bound and
  \<^verbatim>\<open>return images\<close> is UnboundLocalError.
\<close>

definition grid_image ::
  "('d, 'f) externals \<Rightarrow> cube \<Rightarrow> real list list \<times> real list list \<times> real list list \<Rightarrow>
   nat \<Rightarrow> nat \<Rightarrow> int \<Rightarrow> string \<Rightarrow> int \<Rightarrow> (int + int list) option \<Rightarrow>
   error + real list list list option" where
  "grid_image ext data uvw npixx npixy uvres mode nthreads integrations =
     (let integrations1 =
        (case integrations of
           None \<Rightarrow> map int [0..<length data]
         | Some (Inl i) \<Rightarrow> [i]
         | Some (Inr ints) \<Rightarrow> ints)
      in if mode = ''fftw'' then
           ebind (np_take data integrations1) (\<lambda>selected.
           ebind (grid_visibilities selected uvw npixx npixy uvres (1 < nthreads)) (\<lambda>grids.
           ebind (image_fftw ext grids) (\<lambda>images. Inr (Some images))))
         else if mode = ''cuda'' then Inr None
         else Inl UnboundLocalError)"

text \<open>
  \<^verbatim>\<open>bytespercd = 8*(st.npixx*st.npixy + st.prefs.timewindow*st.nchan*st.npol)\<close> and
  the test \<^verbatim>\<open>len(canddatalist)*bytespercd/1000**3 > st.prefs.memory_limit\<close>.
\<close>

definition bytespercd :: "search_state \<Rightarrow> int" where
  "bytespercd st =
     8 * (int (st_npixx st) * int (st_npixy st) +
          timewindow (prefs st) * int (st_nchan st) * int (st_npol st))"

definition over_limit :: "search_state \<Rightarrow> nat \<Rightarrow> bool" where
  "over_limit st n = (memory_limit (prefs st) < of_int (int n * bytespercd st) / 1000 ^ 3)"

text \<open>
  The body of \<^verbatim>\<open>for i, image in enumerate(images)\<close> of \<open>search_thresh_fftw\<close>, for the
  search types \<open>image1\<close> and \<open>image1k\<close>.  The loop state is the candidate collection and
  the buffer \<open>canddatalist\<close>.
\<close>

definition image1_step ::
  "('d, 'f) externals \<Rightarrow> search_state \<Rightarrow> nat \<Rightarrow> cube \<Rightarrow> nat \<Rightarrow> nat \<Rightarrow> nat \<Rightarrow> int list \<Rightarrow>
   nat \<times> real list list \<Rightarrow> 'f list \<times> 'd canddata list \<Rightarrow> error + 'f list \<times> 'd canddata list" where
  "image1_step ext st segment data dmind dtind beamnum integrations x s =
     (case x of (i, img) \<Rightarrow>
      case s of (candcollection, canddatalist) \<Rightarrow>
        ebind (nth_or_raise integrations i) (\<lambda>integration.
        ebind (peak_snr_fftw (Image2 img)) (\<lambda>peak_snr.
          if np_gt peak_snr (Fin (sigma_image1 st)) then
            (let candloc = (segment, integration, dmind, dtind, beamnum) in
             ebind
               (if searchtype (prefs st) = ''image1k'' then
                  ebind (total_snr ext data integration peak_snr) (\<lambda>snrk.
                    if np_gt snrk (Fin (sigma_kalman (prefs st))) then
                      ebind (phased_snippet ext data integration) (\<lambda>dataph.
                        Inr (canddatalist @
                          [\<lparr>cd_loc = candloc, cd_image = Image2 img, cd_data = dataph,
                            cd_snrk = Some snrk, cd_snrarm = None\<rparr>]))
                    else Inr canddatalist)
                else if searchtype (prefs st) = ''image1'' then
                  ebind (phased_snippet ext data integration) (\<lambda>dataph.
                    Inr (canddatalist @
                      [\<lparr>cd_loc = candloc, cd_image = Image2 img, cd_data = dataph,
                        cd_snrk = None, cd_snrarm = None\<rparr>]))
                else Inr canddatalist)
               (\<lambda>canddatalist1.
                  if over_limit st (length canddatalist1) then
                    Inr (candcollection @ calc_features ext canddatalist1, [])
                  else Inr (candcollection, canddatalist1)))
          else Inr (candcollection, canddatalist))))"

text \<open>
  The arm search.  \<open>grid_visibilities_arm_jit\<close> grids the visibilities of the baselines
  of one arm on a one-dimensional grid per integration, at the truncated distance
  \<^verbatim>\<open>int64(uvd[j, k]/uvres)\<close> and with the test \<^verbatim>\<open>np.abs(uvbl < npix//2)\<close>.
\<close>

definition accumulate_arm :: "complex list list \<Rightarrow> nat \<Rightarrow> nat \<Rightarrow> complex \<Rightarrow> complex list list" where
  "accumulate_arm g i a x = g[i := (g ! i)[a := g ! i ! a + x]]"

definition grid_visibilities_arm_jit ::
  "cube \<Rightarrow> real list list \<Rightarrow> nat \<Rightarrow> int \<Rightarrow> complex list list \<Rightarrow> error + complex list list" where
  "grid_visibilities_arm_jit data uvd npix uvres grids =
     (case shape data of (nint, nbl, nchan, npol) \<Rightarrow>
        for_each (\<lambda>j.
          for_each (\<lambda>k g.
            if uvres = 0 then Inl ZeroDivisionError
            else
              (let uvbl = int64 (uvd ! j ! k / of_int uvres)
               in if uvbl < int npix div 2 then
                    if npix = 0 then Inl ZeroDivisionError
                    else
                      (let uvmod = nat (uvbl mod int npix)
                       in for_each (\<lambda>i.
                            for_each (\<lambda>l g1.
                              Inr (accumulate_arm g1 i uvmod (get4 data i j k l)))
                              [0..<npol])
                            [0..<nint] g)
                  else Inr g))
            [0..<nchan])
          [0..<nbl] grids)"

text \<open>A function that can raise, on every element of a list in turn.\<close>

fun map_result :: "('a \<Rightarrow> error + 'b) \<Rightarrow> 'a list \<Rightarrow> error + 'b list" where
  "map_result f [] = Inr []"
| "map_result f (x # xs) =
     ebind (f x) (\<lambda>y. ebind (map_result f xs) (\<lambda>ys. Inr (y # ys)))"

text \<open>
  \<open>grid_arm\<close>: the uv distance of the baselines \<open>arminds\<close>,
  \<^verbatim>\<open>np.sqrt(u.take(arminds, axis=0)**2 + v.take(arminds, axis=0)**2)\<close>, a grid of zeros
  of shape (integrations, npix), and the data of these baselines,
  \<^verbatim>\<open>data.take(arminds, axis=1)\<close>, gridded on it.
\<close>

definition grid_arm ::
  "cube \<Rightarrow> real list list \<times> real list list \<times> real list list \<Rightarrow> nat list \<Rightarrow> nat \<Rightarrow> int \<Rightarrow>
   error + complex list list" where
  "grid_arm data uvw arminds npix uvres =
     (case uvw of (u, v, w) \<Rightarrow>
        ebind (np_take u (map int arminds)) (\<lambda>us.
        ebind (np_take v (map int arminds)) (\<lambda>vs.
        (let uvd = map2 (map2 (\<lambda>a b. sqrt (a ^ 2 + b ^ 2))) us vs;
             grids = replicate (length data) (replicate npix 0)
         in ebind (map_result (\<lambda>vis. np_take vis (map int arminds)) data) (\<lambda>armdata.
            grid_visibilities_arm_jit armdata uvd npix uvres grids)))))"

text \<open>
  \<open>image_arms\<close>: the selected integrations gridded and transformed along the north,
  the east and the west arm, on \<open>max(st.npixx, st.npixy)\<close> pixels.
\<close>

definition image_arms ::
  "('d, 'f) externals \<Rightarrow> search_state \<Rightarrow> cube \<Rightarrow>
   real list list \<times> real list list \<times> real list list \<Rightarrow> (int + int list) option \<Rightarrow>
   error + real list list \<times> real list list \<times> real list list" where
  "image_arms ext st data uvw integrations =
     (let integrations1 =
        (case integrations of
           None \<Rightarrow> map int [0..<length data]
         | Some (Inl i) \<Rightarrow> [i]
         | Some (Inr ints) \<Rightarrow> ints);
          npix = max (st_npixx st) (st_npixy st);
          arm = (\<lambda>name.
            ebind (np_take data integrations1) (\<lambda>selected.
            ebind (grid_arm selected uvw (blarr_arm ext name) npix (st_uvres st)) (\<lambda>grids.
            image_fftw_arm ext grids)))
      in ebind (arm ''N'') (\<lambda>images_narm.
         ebind (arm ''E'') (\<lambda>images_earm.
         ebind (arm ''W'') (\<lambda>images_warm.
         Inr (images_narm, images_earm, images_warm)))))"

text \<open>
  \<open>search_thresh_arms\<close> is decorated \<^verbatim>\<open>@jit(nopython=True)\<close>: numba compiles it at its
  first call, for the types of the arguments, and the compilation cannot type the body,
  which calls \<^verbatim>\<open>scipy.stats.norm.logsf\<close>, a function nopython mode does not
  support.  Every call raises TypingError, whatever the arguments; the body never
  runs.  (Interpreted, the body could not return a trigger either: it reads
  \<^verbatim>\<open>ind3 = map_arm123[ind1, ind2]\<close>, a float of the random map, and indexes
  \<^verbatim>\<open>arm3[i, ind3]\<close> with it, which is IndexError, before it appends anything.)
\<close>

definition search_thresh_arms ::
  "real list list \<Rightarrow> real list list \<Rightarrow> real list list \<Rightarrow> real list list \<Rightarrow> real \<Rightarrow> real \<Rightarrow>
   error + (nat \<times> real) list" where
  "search_thresh_arms arm1 arm2 arm3 map_arm123 sigma_arm_thresh sigma_arms_thresh =
     Inl TypingError"

text \<open>
  The body of \<^verbatim>\<open>for i, snrarm in candisnr\<close>, for the search types \<open>imagearm\<close> and
  \<open>imagearmk\<close>.  The loop state is the buffer \<open>canddatalist\<close> alone: the body does not
  touch the candidate collection.  For \<open>imagearm\<close> the candidate is built with
  \<^verbatim>\<open>image=armimage\<close>, a name that is bound nowhere: NameError.
\<close>

definition arm_step ::
  "('d, 'f) externals \<Rightarrow> search_state \<Rightarrow> nat \<Rightarrow> cube \<Rightarrow> nat \<Rightarrow> nat \<Rightarrow> nat \<Rightarrow> int list \<Rightarrow>
   nat \<times> real \<Rightarrow> 'd canddata list \<Rightarrow> error + 'd canddata list" where
  "arm_step ext st segment data dmind dtind beamnum integrations x canddatalist =
     (case x of (i, snrarm) \<Rightarrow>
        ebind (nth_or_raise integrations i) (\<lambda>integration.
        ebind (grid_image ext data (get_uvw_segment ext segment) (st_npixx st) (st_npixy st)
                 (st_uvres st) ''fftw'' (nthread (prefs st)) (Some (Inl integration)))
          (\<lambda>gridded.
        case gridded of
          None \<Rightarrow> Inl TypeError
        | Some images \<Rightarrow>
        ebind (peak_snr_fftw (Image3 images)) (\<lambda>peak_snr.
          if np_gt peak_snr (Fin (sigma_image1 st)) then
            if searchtype (prefs st) = ''imagearmk'' then
              ebind (total_snr ext data integration peak_snr) (\<lambda>snrk.
                if np_gt snrk (Fin (sigma_kalman (prefs st))) then
                  ebind (phased_snippet ext data integration) (\<lambda>dataph.
                    Inr (canddatalist @
                      [\<lparr>cd_loc = (segment, integration, dmind, dtind, beamnum),
                        cd_image = Image3 images, cd_data = dataph,
                        cd_snrk = Some snrk, cd_snrarm = Some snrarm\<rparr>]))
                else Inr canddatalist)
            else if searchtype (prefs st) = ''imagearm'' then
              ebind (phased_snippet ext data integration) (\<lambda>dataph. Inl NameError)
            else Inr canddatalist
          else Inr canddatalist))))"

text \<open>
  The arm branch from \<^verbatim>\<open>canddatalist = []\<close> on: the loop over the triggers
  \<open>candisnr\<close>, after which the function returns \<open>candcollection\<close>.  The buffer is not
  read after the loop.
\<close>

definition arm_loop ::
  "('d, 'f) externals \<Rightarrow> search_state \<Rightarrow> nat \<Rightarrow> cube \<Rightarrow> nat \<Rightarrow> nat \<Rightarrow> nat \<Rightarrow> int list \<Rightarrow>
   'f list \<Rightarrow> (nat \<times> real) list \<Rightarrow> error + 'f list" where
  "arm_loop ext st segment data dmind dtind beamnum integrations candcollection candisnr =
     ebind (for_each (arm_step ext st segment data dmind dtind beamnum integrations)
              candisnr [])
       (\<lambda>canddatalist. Inr candcollection)"

text \<open>
  The preparation for the Kalman filter, for \<open>image1k\<close> and \<open>imagearmk\<close>:
  \<^verbatim>\<open>np.random.choice(len(data), max(10, len(data)//10), replace=False)\<close> raises
  ValueError when the sample is larger than the population.
\<close>

definition kalman_prep ::
  "('d, 'f) externals \<Rightarrow> search_state \<Rightarrow> cube \<Rightarrow> error + unit" where
  "kalman_prep ext st data =
     (if searchtype (prefs st) \<in> {''image1k'', ''imagearmk''} then
        if length data < max 10 (length data div 10) then Inl ValueError
        else (case kalman_prepare ext data of Some e \<Rightarrow> Inl e | None \<Rightarrow> Inr ())
      else Inr ())"

text \<open>
  \<open>search_thresh_fftw\<close>.  The argument \<open>integrations\<close> is None, an int or a list.
  The branch of the search types \<open>image1\<close> and \<open>image1k\<close> ends with
  \<^verbatim>\<open>candcollection += candidates.calc_features(canddatalist)\<close>; the branch of
  \<open>imagearm\<close> and \<open>imagearmk\<close> images the arms, draws the map with
  \<^verbatim>\<open>fakemap(len(arm1[0]))\<close>, calls \<open>search_thresh_arms\<close>, runs the loop over its triggers
  and ends there.  The last branch is \<^verbatim>\<open>raise NotImplemented(...)\<close>: NotImplemented is
  not callable, which is TypeError.
\<close>

definition search_thresh_fftw ::
  "('d, 'f) externals \<Rightarrow> search_state \<Rightarrow> nat \<Rightarrow> cube \<Rightarrow> nat \<Rightarrow> nat \<Rightarrow>
   (int + int list) option \<Rightarrow> nat \<Rightarrow> error + 'f list" where
  "search_thresh_fftw ext st segment data dmind dtind integrations beamnum =
     (let candcollection = [] in
      if \<not> np_any data then Inr candcollection
      else
        (let integrations1 =
           (case integrations of
              None \<Rightarrow> get_search_ints ext segment dmind dtind
            | Some (Inl i) \<Rightarrow> [i]
            | Some (Inr ints) \<Rightarrow> ints)
         in if length integrations1 = 0 then Inr candcollection
            else
              ebind (kalman_prep ext st data) (\<lambda>_.
                if searchtype (prefs st) \<in> {''image1'', ''image1k''} then
                  ebind (grid_image ext data (get_uvw_segment ext segment) (st_npixx st)
                           (st_npixy st) (st_uvres st) ''fftw'' (nthread (prefs st))
                           (Some (Inr integrations1)))
                    (\<lambda>gridded.
                  case gridded of
                    None \<Rightarrow> Inl TypeError
                  | Some images \<Rightarrow>
                  ebind (for_each
                           (image1_step ext st segment data dmind dtind beamnum integrations1)
                           (zip [0..<length images] images) (candcollection, []))
                    (\<lambda>(candcollection1, canddatalist).
                       Inr (candcollection1 @ calc_features ext canddatalist)))
                else if searchtype (prefs st) \<in> {''imagearm'', ''imagearmk''} then
                  ebind (image_arms ext st data (get_uvw_segment ext segment)
                           (Some (Inr integrations1)))
                    (\<lambda>(arm1, arm2, arm3).
                  ebind (nth_or_raise arm1 0) (\<lambda>arm10.
                  (let map_arm123 = fakemap ext (length arm10) in
                  ebind (search_thresh_arms arm1 arm2 arm3 map_arm123
                           (sigma_arm (prefs st)) (sigma_arms (prefs st)))
                    (arm_loop ext st segment data dmind dtind beamnum integrations1
                       candcollection))))
                else Inl TypeError)))"

text \<open>
  \<open>dedisperse_image_fftw\<close>: the loop over the trial grid, \<open>dt\<close> outside and \<open>dm\<close>
  inside.
\<close>

definition dedisperse_image_fftw ::
  "('d, 'f) externals \<Rightarrow> search_state \<Rightarrow> nat \<Rightarrow> cube \<Rightarrow> (int + int list) option \<Rightarrow>
   error + 'f list" where
  "dedisperse_image_fftw ext st segment data integrations =
     for_each (\<lambda>dtind.
       for_each (\<lambda>dmind candcollection.
         ebind (np_max (st_freq st)) (\<lambda>fmax.
         ebind (calc_delay (st_freq st) fmax (dmarr st ! dmind) (st_inttime st) None) (\<lambda>delay.
         ebind (dedisperseresample data delay (dtarr st ! dtind) (1 < nthread (prefs st)))
           (\<lambda>data_corr.
         ebind (search_thresh_fftw ext st segment data_corr dmind dtind integrations 0)
           (\<lambda>found. Inr (candcollection @ found))))))
         [0..<length (dmarr st)])
       [0..<length (dtarr st)] []"

text \<open>
  \<open>prep_and_search\<close>.  The local variable \<open>candcollection\<close> is bound in the \<open>cuda\<close>
  and in the \<open>fftw\<close> branch only; the last branch logs a warning and binds nothing, and
  reading the variable afterwards is UnboundLocalError.  The result carries the
  warnings the function itself logs.
\<close>

definition prep_and_search ::
  "('d, 'f) externals \<Rightarrow> search_state \<Rightarrow> nat \<Rightarrow> cube \<Rightarrow> string list \<times> (error + 'f list)" where
  "prep_and_search ext st segment data =
     (case data_prep ext data of
        Inl e \<Rightarrow> ([], Inl e)
      | Inr data1 \<Rightarrow>
          (let branch =
             (if fftmode (prefs st) = ''cuda'' then
                ([], ebind (search_cuda ext data1) (\<lambda>c. Inr (Some c)))
              else if fftmode (prefs st) = ''fftw'' then
                ([], ebind (dedisperse_image_fftw ext st segment data1 None) (\<lambda>c. Inr (Some c)))
              else
                ([''fftmode '' @ fftmode (prefs st) @ '' not recognized (cuda, fftw allowed)''],
                 Inr None))
           in (fst branch,
               ebind (snd branch) (\<lambda>candcollection.
                 case candcollection of
                   None \<Rightarrow> Inl UnboundLocalError
                 | Some c \<Rightarrow> ebind (save_cands ext c) (\<lambda>_. Inr c)))))"

subsection \<open>A concrete run\<close>





section \<open>Properties of the delay model\<close>

subsection \<open>The binary exponent\<close>

text \<open>
  \<open>float_exp x\<close> is the binary exponent of a non-zero \<open>x\<close>: \<open>2^e \<le> |x| < 2^(e+1)\<close>.
\<close>

lemma bit_length_pos: "0 < n \<Longrightarrow> 0 < bit_length n"
  by (subst bit_length.simps) simp

lemma bit_length_bounds:
  "0 < n \<Longrightarrow> 2 ^ (bit_length n - 1) \<le> n \<and> n < 2 ^ bit_length n"
proof (induction n rule: bit_length.induct)
  case (1 n)
  have bl: "bit_length n = Suc (bit_length (n div 2))"
    using "1.prems" by (subst bit_length.simps) simp
  show ?case
  proof (cases "n div 2 = 0")
    case True
    then have "n = 1" using "1.prems" by (simp add: div_eq_0_iff) 
    then show ?thesis by (simp add: bl bit_length.simps)
  next
    case False
    then have pos: "0 < n div 2" by simp
    from "1.IH" [OF _ pos] "1.prems"
    have ih: "2 ^ (bit_length (n div 2) - 1) \<le> n div 2" "n div 2 < 2 ^ bit_length (n div 2)"
      by simp_all
    have k: "0 < bit_length (n div 2)" using pos by (rule bit_length_pos)
    then have "(2::nat) ^ bit_length (n div 2) = 2 * 2 ^ (bit_length (n div 2) - 1)"
      by (cases "bit_length (n div 2)") simp_all
    then have "2 ^ bit_length (n div 2) \<le> n" using ih(1) by linarith
    moreover have "n < 2 * 2 ^ bit_length (n div 2)" using ih(2) by linarith
    ultimately show ?thesis by (simp add: bl)
  qed
qed

lemma float_exp_bounds:
  assumes "x \<noteq> 0"
  shows "pow2 (float_exp x) \<le> \<bar>x\<bar> \<and> \<bar>x\<bar> < pow2 (float_exp x + 1)"
proof (cases "1 \<le> \<bar>x\<bar>")
  case True
  define n where "n = nat \<lfloor>\<bar>x\<bar>\<rfloor>"
  have fl: "1 \<le> \<lfloor>\<bar>x\<bar>\<rfloor>" using True by simp
  then have n: "0 < n" "int n = \<lfloor>\<bar>x\<bar>\<rfloor>" by (simp_all add: n_def)
  have rn: "real n \<le> \<bar>x\<bar>" "\<bar>x\<bar> < real n + 1"
  proof -
    have "real n = of_int \<lfloor>\<bar>x\<bar>\<rfloor>" using n(2) by (metis of_int_of_nat_eq)
    then show "real n \<le> \<bar>x\<bar>" "\<bar>x\<bar> < real n + 1" by linarith+
  qed
  from bit_length_bounds [OF n(1)]
  have b: "2 ^ (bit_length n - 1) \<le> n" "n < 2 ^ bit_length n" by simp_all
  have k: "0 < bit_length n" using n(1) by (rule bit_length_pos)
  have e: "float_exp x = int (bit_length n) - 1" using True by (simp add: float_exp_def n_def)
  have p1: "pow2 (float_exp x) = 2 ^ (bit_length n - 1)"
    using k by (simp add: e pow2_def nat_diff_distrib')
  have p2: "pow2 (float_exp x + 1) = 2 ^ bit_length n"
    by (simp add: e pow2_def)
  have "(2::real) ^ (bit_length n - 1) \<le> real n"
    using b(1) by (metis of_nat_le_iff of_nat_numeral of_nat_power)
  moreover have "real n + 1 \<le> 2 ^ bit_length n"
  proof -
    have "n + 1 \<le> 2 ^ bit_length n" using b(2) by simp
    then have "real (n + 1) \<le> real (2 ^ bit_length n)" by (rule of_nat_mono)
    then show ?thesis by simp
  qed
  ultimately show ?thesis using rn unfolding p1 p2 by linarith
next
  case False
  define y where "y = 1 / \<bar>x\<bar>"
  define m where "m = nat (\<lceil>y\<rceil> - 1)"
  have xp: "0 < \<bar>x\<bar>" "\<bar>x\<bar> < 1" using assms False by simp_all
  then have y1: "1 < y" by (simp add: y_def)
  then have c: "2 \<le> \<lceil>y\<rceil>" by (simp add: le_ceiling_iff)
  then have m: "0 < m" "int m = \<lceil>y\<rceil> - 1" by (simp_all add: m_def)
  have rm: "real m < y" "y \<le> real m + 1"
  proof -
    have "real m = of_int (\<lceil>y\<rceil> - 1)" using m(2) by (metis of_int_of_nat_eq)
    then show "real m < y" "y \<le> real m + 1" by (simp_all add: le_of_int_ceiling) linarith
  qed
  from bit_length_bounds [OF m(1)]
  have b: "2 ^ (bit_length m - 1) \<le> m" "m < 2 ^ bit_length m" by simp_all
  have k: "0 < bit_length m" using m(1) by (rule bit_length_pos)
  have e: "float_exp x = - int (bit_length m)"
    using False by (simp add: float_exp_def m_def y_def)
  have p1: "pow2 (float_exp x) = 1 / 2 ^ bit_length m"
    using k by (simp add: e pow2_def)
  have p2: "pow2 (float_exp x + 1) = 1 / 2 ^ (bit_length m - 1)"
  proof (cases "bit_length m = 1")
    case True
    then show ?thesis by (simp add: e pow2_def)
  next
    case False
    then have "1 < bit_length m" using k by simp
    then show ?thesis by (simp add: e pow2_def nat_diff_distrib')
  qed
  have lo: "(2::real) ^ (bit_length m - 1) < y"
  proof -
    have "(2::real) ^ (bit_length m - 1) \<le> real m"
      using b(1) by (metis of_nat_le_iff of_nat_numeral of_nat_power)
    then show ?thesis using rm(1) by linarith
  qed
  have hi: "y \<le> 2 ^ bit_length m"
  proof -
    have "m + 1 \<le> 2 ^ bit_length m" using b(2) by simp
    then have "real (m + 1) \<le> real (2 ^ bit_length m)" by (rule of_nat_mono)
    then have "real m + 1 \<le> 2 ^ bit_length m" by simp
    then show ?thesis using rm(2) by linarith
  qed
  have xy: "\<bar>x\<bar> = 1 / y" using xp by (simp add: y_def)
  have "1 / 2 ^ bit_length m \<le> 1 / y"
    using hi y1 by (intro divide_left_mono) simp_all
  moreover have "1 / y < 1 / 2 ^ (bit_length m - 1)"
    using lo y1 by (intro divide_strict_left_mono) (simp_all add: zero_less_mult_iff)
  ultimately show ?thesis unfolding p1 p2 xy by blast
qed

subsection \<open>The delays\<close>

lemma default_scale_literal: "fl64 (41488 / 10000000) = Fin default_scale"
  by (simp add: fl64_def float_exp_def bit_length.simps pow2_def np_round_def
      default_scale_def Let_def)

lemma delay_elem_trunc:
  assumes "delay_expr scale dm f freqref inttime = Fin x"
  shows "delay_elem scale dm freqref inttime f = store_int32 (if 0 \<le> x then \<lfloor>x\<rfloor> else \<lceil>x\<rceil>)"
  using assms by (simp add: delay_elem_def trunc_real_def)

lemma ceiling_eq_floor_iff: "(\<lceil>x\<rceil> = \<lfloor>x\<rfloor>) = (of_int \<lfloor>x\<rfloor> = (x::real))"
proof
  assume a: "\<lceil>x\<rceil> = \<lfloor>x\<rfloor>"
  have lo: "of_int \<lfloor>x\<rfloor> \<le> x" by linarith
  have "x \<le> of_int \<lceil>x\<rceil>" by linarith
  then have "x \<le> of_int \<lfloor>x\<rfloor>" by (simp only: a)
  then show "of_int \<lfloor>x\<rfloor> = x" using lo by linarith
next
  assume b: "of_int \<lfloor>x\<rfloor> = x"
  have "\<lceil>of_int \<lfloor>x\<rfloor> :: real\<rceil> = \<lfloor>x\<rfloor>" by (rule ceiling_of_int)
  then show "\<lceil>x\<rceil> = \<lfloor>x\<rfloor>" by (simp only: b)
qed

text \<open>
  \<open>int\<close> and the floor give the same delay exactly when the float value of the
  expression is not negative or is an integer.
\<close>

lemma delay_elem_floor_iff:
  assumes "delay_expr scale dm f freqref inttime = Fin x"
    and "- (2 ^ 31) \<le> \<lfloor>x\<rfloor>" "\<lceil>x\<rceil> < 2 ^ 31"
  shows "(delay_elem scale dm freqref inttime f = floor_delay scale dm freqref inttime f) =
         (0 \<le> x \<or> of_int \<lfloor>x\<rfloor> = x)"
proof -
  have fc: "\<lfloor>x\<rfloor> \<le> \<lceil>x\<rceil>" by (rule floor_le_ceiling)
  have r1: "- (2 ^ 31) \<le> \<lfloor>x\<rfloor> \<and> \<lfloor>x\<rfloor> < 2 ^ 31" using assms(2,3) fc by linarith
  have r2: "- (2 ^ 31) \<le> \<lceil>x\<rceil> \<and> \<lceil>x\<rceil> < 2 ^ 31" using assms(2,3) fc by linarith
  have d: "delay_elem scale dm freqref inttime f = Inr (if 0 \<le> x then \<lfloor>x\<rfloor> else \<lceil>x\<rceil>)"
    using r1 r2 by (simp add: delay_elem_trunc [OF assms(1)] store_int32_def)
  have f: "floor_delay scale dm freqref inttime f = Inr \<lfloor>x\<rfloor>"
    using r1 by (simp add: floor_delay_def assms(1) store_int32_def)
  show ?thesis unfolding d f using ceiling_eq_floor_iff [of x] by auto
qed

text \<open>
  C9.  A channel above the reference frequency: the delay of a 2 GHz channel relative
  to 1 GHz at DM 100 and integrations of 0.125 s.  The float expression is about
  -2.489; \<open>calc_delay\<close> returns -2, the truncation toward zero, while the floor of the
  same float value, and of the exact expression, is -3.
\<close>

theorem calc_delay_above_reference:
  "calc_delay [2] 1 100 (1 / 8) None = Inr [- 2] \<and>
   floor_delay default_scale 100 1 (1 / 8) 2 = Inr (- 3) \<and>
   \<lfloor>41488 / 10000000 * 100 * (1 / 2 ^ 2 - 1 / 1 ^ 2) / (1 / 8) :: real\<rfloor> = - 3"
  by (simp add: calc_delay_def scale_or_default_def delay_elem_def floor_delay_def
      delay_expr_def store_int32_def trunc_real_def default_scale_def
      fl64_def float_exp_def bit_length.simps pow2_def np_round_def Let_def)

text \<open>
  A channel below the reference, where the delay is not negative: the truncation and
  the floor of the float value agree.
\<close>

lemma calc_delay_below_reference:
  "calc_delay [1] 2 100 (1 / 8) None = Inr [2] \<and>
   floor_delay default_scale 100 2 (1 / 8) 1 = Inr 2"
  by (simp add: calc_delay_def scale_or_default_def delay_elem_def floor_delay_def
      delay_expr_def store_int32_def trunc_real_def default_scale_def
      fl64_def float_exp_def bit_length.simps pow2_def np_round_def Let_def)

text \<open>
  The rounding of the float operations decides the delay where the exact expression
  is an integer or close to one: at 0.75 GHz relative to 3 GHz, DM 1831.0546875 and
  integrations of 0.0048828125 s the float value is just below 2593 and the delay is
  2592, while the exact expression with the scale 0.0041488 is above 2593.
\<close>

lemma calc_delay_float_rounding:
  "calc_delay [3 / 4] 3 (18310546875 / 10000000) (48828125 / 10000000000) None = Inr [2592] \<and>
   \<lfloor>41488 / 10000000 * (18310546875 / 10000000) * (1 / (3 / 4) ^ 2 - 1 / 3 ^ 2) /
      (48828125 / 10000000000) :: real\<rfloor> = 2593"
  by (simp add: calc_delay_def scale_or_default_def delay_elem_def
      delay_expr_def store_int32_def trunc_real_def default_scale_def
      fl64_def float_exp_def bit_length.simps pow2_def np_round_def Let_def
      power2_eq_square)
section \<open>Properties of the peak SNR\<close>

lemma peak_snr_cuda_zero_rms: "peak_snr_cuda stats_max (Fin 0) = Fin 0"
  by (simp add: peak_snr_cuda_def)

lemma madtostd_constant_image: "madtostd [1, 1, 1, 1] = Fin 0"
  by (simp add: madtostd_def np_median_def)

text \<open>
  C3.  The GPU path tests the noise estimate and yields 0 when it is zero; the FFTW
  path divides without a test.  On a 2 by 2 image whose pixels all equal 1 the scaled
  median absolute deviation is 0 and the FFTW peak SNR is infinite, which exceeds every
  threshold; on an image of zeros it is NaN.
\<close>

theorem peak_snr_fftw_zero_noise:
  "madtostd (pixels (Image2 [[1, 1], [1, 1]])) = Fin 0 \<and>
   peak_snr_fftw (Image2 [[1, 1], [1, 1]]) = Inr PInf \<and>
   np_gt PInf (Fin sigma) \<and>
   peak_snr_fftw (Image2 [[0, 0], [0, 0]]) = Inr NaN \<and>
   peak_snr_cuda (Fin 1) (Fin 0) = Fin 0"
  by (simp add: peak_snr_fftw_def madtostd_def np_median_def np_max_def peak_snr_cuda_def)

section \<open>Properties of the Kalman significance\<close>

lemma default_sig_ts_length: "length (default_sig_ts spec_std) = 4"
  by (simp add: default_sig_ts_def)

lemma prepare_loop_length:
  "prepare_loop fit scales = Inr cs \<Longrightarrow> length cs = length scales"
proof (induction scales arbitrary: cs)
  case Nil
  then show ?case by simp
next
  case (Cons s rest)
  then show ?case by (auto simp: ebind_def split: sum.splits)
qed

lemma prepare_loop_ok:
  assumes "\<forall>s \<in> set scales. \<exists>c. fit s = Inr c"
  shows "\<exists>cs. prepare_loop fit scales = Inr cs"
  using assms
proof (induction scales)
  case Nil
  then show ?case by simp
next
  case (Cons s rest)
  then obtain c cs where "fit s = Inr c" "prepare_loop fit rest = Inr cs" by auto
  then show ?case by (simp add: ebind_def)
qed

lemma kalman_prepare_coeffs_list:
  "kalman_prepare_coeffs mc_fit data_std (Some (PList scales)) =
     ebind (prepare_loop (fit_scale mc_fit data_std) scales) (\<lambda>coeffs.
       Inr (PTuple [PList scales, PList coeffs]))"
  by (simp add: kalman_prepare_coeffs_def ebind_def)

lemma kalman_prepare_coeffs_pair:
  assumes "kalman_prepare_coeffs mc_fit data_std (Some (PList scales)) = Inr r"
  shows "\<exists>cs. r = PTuple [PList scales, PList cs] \<and> length cs = length scales"
proof (cases "prepare_loop (fit_scale mc_fit data_std) scales")
  case (Inl e)
  with assms show ?thesis by (simp add: kalman_prepare_coeffs_list ebind_def)
next
  case (Inr cs)
  with assms have "r = PTuple [PList scales, PList cs]"
    by (simp add: kalman_prepare_coeffs_list ebind_def)
  moreover have "length cs = length scales" using Inr by (rule prepare_loop_length)
  ultimately show ?thesis by blast
qed

lemma kalman_prepare_coeffs_returns:
  assumes "\<forall>x \<in> set data_std. 0 \<le> x"
    and "\<forall>s \<in> set scales. \<exists>c. mc_fit data_std s = Inr c"
  shows "\<exists>r. kalman_prepare_coeffs mc_fit data_std (Some (PList scales)) = Inr r"
proof -
  have "\<not> list_ex (\<lambda>x. x < 0) data_std"
    using assms(1) by (auto simp: list_ex_iff)
  then have "\<forall>s \<in> set scales. \<exists>c. fit_scale mc_fit data_std s = Inr c"
    using assms(2) by (simp add: fit_scale_def)
  then obtain cs where "prepare_loop (fit_scale mc_fit data_std) scales = Inr cs"
    using prepare_loop_ok by blast
  then show ?thesis by (simp add: kalman_prepare_coeffs_list ebind_def)
qed

lemma kalman_significance_unfold_default:
  "kalman_significance kfd mc_fit spec spec_std (PList []) (PList []) =
     ebind (kalman_prepare_coeffs mc_fit spec_std (Some (PList (map PFloat (default_sig_ts spec_std)))))
       (\<lambda>coeffs1. ebind (py_len coeffs1) (\<lambda>b.
          if 4 \<noteq> b then Inl AssertionError
          else
            ebind (significance_loop (kfd spec spec_std) coeffs1 0
                     (map PFloat (default_sig_ts spec_std))) (\<lambda>significances.
            ebind (np_max_floats significances) (\<lambda>best.
            Inr (np_mul best (Fin (ln 2)))))))"
  by (simp add: kalman_significance_def ebind_def default_sig_ts_length split: sum.splits)

text \<open>
  C10.  \<open>kalman_significance\<close> called with no scales and no coefficients (the defaults)
  runs \<open>kalman_prepare_coeffs\<close> on the four default scales.  When that call raises, its
  exception is the outcome of \<open>kalman_significance\<close>.  When it returns, what it returns
  is the two-element tuple of the scales and of one coefficient entry per scale, which
  \<open>kalman_significance\<close> binds whole to \<open>coeffs\<close>: the assertion compares the four scales
  with the two items of the tuple, and the call raises AssertionError.  In neither case
  is a significance returned.
\<close>

theorem kalman_significance_default_raises:
  "(case kalman_prepare_coeffs mc_fit spec_std
           (Some (PList (map PFloat (default_sig_ts spec_std)))) of
      Inl e \<Rightarrow>
        kalman_significance kfd mc_fit spec spec_std (PList []) (PList []) = Inl e
    | Inr r \<Rightarrow>
        (\<exists>cs. r = PTuple [PList (map PFloat (default_sig_ts spec_std)), PList cs] \<and>
              length cs = 4) \<and>
        py_len r = Inr 2 \<and>
        kalman_significance kfd mc_fit spec spec_std (PList []) (PList []) =
          Inl AssertionError) \<and>
   (\<forall>v. kalman_significance kfd mc_fit spec spec_std (PList []) (PList []) \<noteq> Inr v)"
proof (cases "kalman_prepare_coeffs mc_fit spec_std
                (Some (PList (map PFloat (default_sig_ts spec_std))))")
  case (Inl e)
  then show ?thesis
    by (simp add: kalman_significance_unfold_default ebind_def)
next
  case (Inr r)
  from kalman_prepare_coeffs_pair [OF Inr]
  obtain cs where r: "r = PTuple [PList (map PFloat (default_sig_ts spec_std)), PList cs]"
    and len: "length cs = 4"
    by (auto simp: default_sig_ts_length)
  from r have "py_len r = Inr 2" by simp
  with Inr r len show ?thesis
    by (simp add: kalman_significance_unfold_default ebind_def)
qed

theorem kalman_significance_default_raises_witness:
  "kalman_prepare_coeffs (\<lambda>data_std sig_t. Inr (PList [PFloat (Fin 1), PFloat (Fin 0)]))
     [1, 1] (Some (PList (map PFloat (default_sig_ts [1, 1])))) =
     Inr (PTuple [PList (map PFloat (default_sig_ts [1, 1])),
                  PList (replicate 4 (PList [PFloat (Fin 1), PFloat (Fin 0)]))]) \<and>
   kalman_significance (\<lambda>spec spec_std sig_t. Inr (Fin 1))
     (\<lambda>data_std sig_t. Inr (PList [PFloat (Fin 1), PFloat (Fin 0)]))
     [1, 2] [1, 1] (PList []) (PList []) = Inl AssertionError"
proof -
  have prep: "kalman_prepare_coeffs (\<lambda>data_std sig_t. Inr (PList [PFloat (Fin 1), PFloat (Fin 0)]))
     [1, 1] (Some (PList (map PFloat (default_sig_ts [1, 1])))) =
     Inr (PTuple [PList (map PFloat (default_sig_ts [1, 1])),
                  PList (replicate 4 (PList [PFloat (Fin 1), PFloat (Fin 0)]))])"
    by (simp add: kalman_prepare_coeffs_list default_sig_ts_def fit_scale_def ebind_def
        numeral_eq_Suc)
  show ?thesis
    using kalman_significance_default_raises
      [where mc_fit = "\<lambda>data_std sig_t. Inr (PList [PFloat (Fin 1), PFloat (Fin 0)])"
         and spec_std = "[1, 1]" and kfd = "\<lambda>spec spec_std sig_t. Inr (Fin 1)"
         and spec = "[1, 2]"]
    by (simp add: prep)
qed

text \<open>
  A noise vector with a negative entry: \<open>kalman_prepare_coeffs\<close> raises ValueError in its
  first trial, and so does \<open>kalman_significance\<close>; the assertion is not reached.
\<close>

theorem kalman_significance_negative_noise_counterexample:
  "kalman_significance (\<lambda>spec spec_std sig_t. Inr (Fin 1))
     (\<lambda>data_std sig_t. Inr (PList [PFloat (Fin 1), PFloat (Fin 0)]))
     [1, 2] [1, - 1] (PList []) (PList []) = Inl ValueError \<and>
   kalman_significance (\<lambda>spec spec_std sig_t. Inr (Fin 1))
     (\<lambda>data_std sig_t. Inr (PList [PFloat (Fin 1), PFloat (Fin 0)]))
     [1, 2] [1, - 1] (PList []) (PList []) \<noteq> Inl AssertionError"
  by (simp add: kalman_significance_unfold_default kalman_prepare_coeffs_list
      default_sig_ts_def fit_scale_def ebind_def)
section \<open>Lemmas on loops and cubes\<close>

lemma ebind_Inr [simp]: "ebind (Inr x) f = f x"
  by (simp add: ebind_def)

lemma ebind_Inl [simp]: "ebind (Inl e) f = Inl e"
  by (simp add: ebind_def)

lemma for_each_append:
  "for_each body (xs @ ys) s = ebind (for_each body xs s) (for_each body ys)"
  by (induction xs arbitrary: s) (simp_all add: ebind_def split: sum.splits)

lemma for_each_map: "for_each body (map g xs) s = for_each (\<lambda>x. body (g x)) xs s"
  by (induction xs arbitrary: s) (simp_all add: ebind_def split: sum.splits)

lemma for_each_product:
  "for_each (\<lambda>a. for_each (body a) ys) xs s =
   for_each (\<lambda>(a, b). body a b) (List.product xs ys) s"
  by (induction xs arbitrary: s)
     (simp_all add: for_each_append for_each_map ebind_def split: sum.splits)

lemma for_each_cong:
  assumes "\<And>x s. x \<in> set xs \<Longrightarrow> f x s = g x s"
  shows "for_each f xs s = for_each g xs s"
  using assms by (induction xs arbitrary: s) (simp_all add: ebind_def split: sum.splits)

lemma for_each_const:
  assumes "\<And>x. x \<in> set xs \<Longrightarrow> body x s = Inr s"
  shows "for_each body xs s = Inr s"
  using assms by (induction xs) simp_all

lemma cube_shape_nth:
  "cube_shape a (n0, n1, n2, n3) \<longleftrightarrow>
     length a = n0 \<and>
     (\<forall>i < n0. length (a ! i) = n1 \<and>
        (\<forall>j < n1. length (a ! i ! j) = n2 \<and>
           (\<forall>k < n2. length (a ! i ! j ! k) = n3)))"
  unfolding cube_shape_def all_set_conv_all_nth by auto

lemma ball_set_update:
  assumes "i < length xs \<Longrightarrow> P y = P (xs ! i)"
  shows "(\<forall>x \<in> set (xs[i := y]). P x) = (\<forall>x \<in> set xs. P x)"
proof (cases "i < length xs")
  case True
  have "(\<forall>n < length xs. P (xs[i := y] ! n)) = (\<forall>n < length xs. P (xs ! n))"
    using assms [OF True] True by (auto simp: nth_list_update)
  then show ?thesis by (simp add: all_set_conv_all_nth)
next
  case False
  then have "xs[i := y] = xs" by (intro list_update_beyond) simp
  then show ?thesis by simp
qed

lemma cube_shape_upd4:
  "cube_shape (upd4 a i j k l v) (n0, n1, n2, n3) = cube_shape a (n0, n1, n2, n3)"
proof -
  let ?C = "(a ! i ! j ! k)[l := v]"
  let ?B = "(a ! i ! j)[k := ?C]"
  let ?A = "(a ! i)[j := ?B]"
  have c: "(\<forall>p \<in> set ?B. length p = n3) = (\<forall>p \<in> set (a ! i ! j). length p = n3)"
    by (rule ball_set_update) simp
  have b: "(\<forall>c \<in> set ?A. length c = n2 \<and> (\<forall>p \<in> set c. length p = n3)) =
           (\<forall>c \<in> set (a ! i). length c = n2 \<and> (\<forall>p \<in> set c. length p = n3))"
    by (rule ball_set_update) (simp add: c)
  have "(\<forall>b \<in> set (a[i := ?A]). length b = n1 \<and>
            (\<forall>c \<in> set b. length c = n2 \<and> (\<forall>p \<in> set c. length p = n3))) =
        (\<forall>b \<in> set a. length b = n1 \<and>
            (\<forall>c \<in> set b. length c = n2 \<and> (\<forall>p \<in> set c. length p = n3)))"
    by (rule ball_set_update) (simp add: b)
  then show ?thesis by (simp add: cube_shape_def upd4_def)
qed

lemma get4_upd4:
  assumes "cube_shape a (n0, n1, n2, n3)" "i < n0" "j < n1" "k < n2" "l < n3"
  shows "get4 (upd4 a i j k l v) i' j' k' l' =
         (if i' = i \<and> j' = j \<and> k' = k \<and> l' = l then v else get4 a i' j' k' l')"
  using assms unfolding cube_shape_nth upd4_def get4_def
  by (auto simp: nth_list_update)

lemma upd4_upd4:
  assumes "cube_shape a (n0, n1, n2, n3)" "i < n0" "j < n1" "k < n2" "l < n3"
  shows "upd4 (upd4 a i j k l v) i j k l v' = upd4 a i j k l v'"
  using assms unfolding cube_shape_nth upd4_def
  by simp

lemma upd4_same: "upd4 a i j k l (get4 a i j k l) = a"
  by (simp add: upd4_def get4_def)

lemma cube_ext:
  assumes "cube_shape a (n0, n1, n2, n3)" "cube_shape b (n0, n1, n2, n3)"
    and "\<And>i j k l. i < n0 \<Longrightarrow> j < n1 \<Longrightarrow> k < n2 \<Longrightarrow> l < n3 \<Longrightarrow>
           get4 a i j k l = get4 b i j k l"
  shows "a = b"
  using assms unfolding cube_shape_nth get4_def
  by (auto intro!: nth_equalityI)

lemma cube_shape_zeros: "cube_shape (np_zeros sh) sh"
  by (cases sh) (auto simp: cube_shape_def np_zeros_def)

lemma get4_zeros:
  "i < n0 \<Longrightarrow> j < n1 \<Longrightarrow> k < n2 \<Longrightarrow> l < n3 \<Longrightarrow> get4 (np_zeros (n0, n1, n2, n3)) i j k l = 0"
  by (simp add: get4_def np_zeros_def)

lemma in_set_nonempty: "x \<in> set xs \<Longrightarrow> xs \<noteq> []"
  by auto

lemma concat_nonempty: "concat xs \<noteq> [] \<Longrightarrow> xs \<noteq> []"
  by auto

lemma len1_uniform: "xs \<noteq> [] \<Longrightarrow> \<forall>x \<in> set xs. length x = n \<Longrightarrow> len1 xs = n"
  by (cases xs) (simp_all add: len1_def)

lemma shape_of_cube_shape:
  assumes "cube_shape data (nint, nbl, nchan, npol)" "np_any data"
  shows "shape data = (nint, nbl, nchan, npol)"
proof -
  obtain x where "x \<in> set (concat (concat (concat data)))"
    using assms(2) unfolding np_any_def list_ex_iff by blast
  then have ne3: "concat (concat (concat data)) \<noteq> []"
    by (rule in_set_nonempty)
  then have ne2: "concat (concat data) \<noteq> []" by (rule concat_nonempty)
  then have ne1: "concat data \<noteq> []" by (rule concat_nonempty)
  then have ne0: "data \<noteq> []" by (rule concat_nonempty)
  have "len1 data = nbl"
    using ne0 assms(1) by (intro len1_uniform) (auto simp: cube_shape_def)
  moreover have "len1 (concat data) = nchan"
    using ne1 assms(1) by (intro len1_uniform) (auto simp: cube_shape_def)
  moreover have "len1 (concat (concat data)) = npol"
    using ne2 assms(1) by (intro len1_uniform) (auto simp: cube_shape_def)
  moreover have "length data = nint" using assms(1) by (simp add: cube_shape_def)
  ultimately show ?thesis by (simp add: shape_def)
qed

lemma np_any_dims:
  assumes "cube_shape data (nint, nbl, nchan, npol)" "np_any data"
  shows "0 < nint \<and> 0 < nbl \<and> 0 < nchan \<and> 0 < npol"
proof -
  obtain x where "x \<in> set (concat (concat (concat data)))"
    using assms(2) unfolding np_any_def list_ex_iff by blast
  then obtain b c p where m: "b \<in> set data" "c \<in> set b" "p \<in> set c" "x \<in> set p" by auto
  have "0 < length data" "0 < length b" "0 < length c" "0 < length p"
    using m by (auto intro: length_pos_if_in_set)
  moreover have "length data = nint" "length b = nbl" "length c = nchan" "length p = npol"
    using assms(1) m by (auto simp: cube_shape_def)
  ultimately show ?thesis by simp
qed

lemma delay_max_Max: "delay \<noteq> [] \<Longrightarrow> delay_max delay = Inr (Max (set delay))"
proof (cases delay)
  case Nil
  assume "delay \<noteq> []"
  with Nil show ?thesis by simp
next
  case (Cons d ds)
  then show ?thesis using Max.set_eq_fold [of d ds] by (simp add: delay_max_def)
qed

section \<open>Properties of the dedispersion kernels\<close>

text \<open>
  C8.  On a cube without a non-zero sample each of \<open>dedisperse\<close>, \<open>resample\<close> and
  \<open>dedisperseresample\<close> returns the empty array, whatever the delays, the factor and
  the backend; nothing is raised.
\<close>

theorem all_zero_cube_short_circuit:
  assumes "\<forall>x \<in> set (concat (concat (concat data))). x = 0"
  shows "dedisperse data delay parallel = Inr [] \<and>
         resample data dt parallel = Inr [] \<and>
         dedisperseresample data delay dt parallel = Inr []"
proof -
  have "\<not> np_any data" using assms by (auto simp: np_any_def list_ex_iff)
  then show ?thesis
    by (simp add: dedisperse_def resample_def dedisperseresample_def)
qed

theorem all_zero_cube_short_circuit_witness:
  "dedisperse [[[[0, 0]], [[0, 0]]]] [3] True = Inr [] \<and>
   resample [[[[0, 0]], [[0, 0]]]] 0 False = Inr [] \<and>
   dedisperseresample [[[[0, 0]], [[0, 0]]]] [3] 0 False = Inr []"
  using all_zero_cube_short_circuit [of "[[[[0, 0]], [[0, 0]]]]" "[3]" p 0 for p]
  by simp

subsection \<open>The sequential fused kernel, cell by cell\<close>

lemma for_each_product_fun:
  "for_each (\<lambda>a. for_each (body a) ys) xs =
   for_each (\<lambda>(a, b). body a b) (List.product xs ys)"
  by (rule ext) (rule for_each_product)

lemma for_each_nest4:
  "for_each (\<lambda>a. for_each (\<lambda>b. for_each (\<lambda>c. for_each (\<lambda>d. body a b c d) ds) cs) bs) as =
   for_each (\<lambda>(a, b, c, d). body a b c d)
     (List.product as (List.product bs (List.product cs ds)))"
  by (simp add: for_each_product_fun)

text \<open>
  A loop whose body, at each index of a duplicate-free list, rewrites only the cell of
  that index, from the value the cell holds.
\<close>

lemma for_each_cells:
  fixes C :: "nat \<times> nat \<times> nat \<times> nat \<Rightarrow> cube \<Rightarrow> error + cube"
  assumes "distinct ps"
    and "\<And>j l k i. (j, l, k, i) \<in> set ps \<Longrightarrow> i < n0 \<and> j < n1 \<and> k < n2 \<and> l < n3"
    and "cube_shape res (n0, n1, n2, n3)"
    and "\<And>j l k i r. (j, l, k, i) \<in> set ps \<Longrightarrow> cube_shape r (n0, n1, n2, n3) \<Longrightarrow>
           C (j, l, k, i) r = Inr (upd4 r i j k l (h j l k i (get4 r i j k l)))"
  shows "\<exists>res'. for_each C ps res = Inr res' \<and> cube_shape res' (n0, n1, n2, n3) \<and>
           (\<forall>i j k l. i < n0 \<longrightarrow> j < n1 \<longrightarrow> k < n2 \<longrightarrow> l < n3 \<longrightarrow>
              get4 res' i j k l =
                (if (j, l, k, i) \<in> set ps then h j l k i (get4 res i j k l)
                 else get4 res i j k l))"
  using assms
proof (induction ps arbitrary: res)
  case Nil
  then show ?case by simp
next
  case (Cons p ps)
  obtain j l k i where p: "p = (j, l, k, i)" by (cases p) auto
  have rng: "i < n0" "j < n1" "k < n2" "l < n3"
    using Cons.prems(2) [of j l k i] p by simp_all
  let ?r1 = "upd4 res i j k l (h j l k i (get4 res i j k l))"
  have step: "C p res = Inr ?r1"
    using Cons.prems(4) [of j l k i res] Cons.prems(3) p by simp
  have sh1: "cube_shape ?r1 (n0, n1, n2, n3)"
    using Cons.prems(3) by (simp add: cube_shape_upd4)
  have "\<exists>res'. for_each C ps ?r1 = Inr res' \<and> cube_shape res' (n0, n1, n2, n3) \<and>
           (\<forall>i j k l. i < n0 \<longrightarrow> j < n1 \<longrightarrow> k < n2 \<longrightarrow> l < n3 \<longrightarrow>
              get4 res' i j k l =
                (if (j, l, k, i) \<in> set ps then h j l k i (get4 ?r1 i j k l)
                 else get4 ?r1 i j k l))"
  proof (rule Cons.IH)
    show "distinct ps" using Cons.prems(1) by simp
    show "\<And>j l k i. (j, l, k, i) \<in> set ps \<Longrightarrow> i < n0 \<and> j < n1 \<and> k < n2 \<and> l < n3"
      by (rule Cons.prems(2)) simp
    show "cube_shape ?r1 (n0, n1, n2, n3)" by (rule sh1)
    show "\<And>j l k i r. (j, l, k, i) \<in> set ps \<Longrightarrow> cube_shape r (n0, n1, n2, n3) \<Longrightarrow>
           C (j, l, k, i) r = Inr (upd4 r i j k l (h j l k i (get4 r i j k l)))"
      by (rule Cons.prems(4)) simp_all
  qed
  then obtain res' where r: "for_each C ps ?r1 = Inr res'" "cube_shape res' (n0, n1, n2, n3)"
    and cells: "\<And>i j k l. i < n0 \<Longrightarrow> j < n1 \<Longrightarrow> k < n2 \<Longrightarrow> l < n3 \<Longrightarrow>
              get4 res' i j k l =
                (if (j, l, k, i) \<in> set ps then h j l k i (get4 ?r1 i j k l)
                 else get4 ?r1 i j k l)"
    by blast
  have notin: "(j, l, k, i) \<notin> set ps" using Cons.prems(1) p by simp
  have "for_each C (p # ps) res = Inr res'" using step r(1) by simp
  moreover have "get4 res' i' j' k' l' =
      (if (j', l', k', i') \<in> set (p # ps) then h j' l' k' i' (get4 res i' j' k' l')
       else get4 res i' j' k' l')"
    if "i' < n0" "j' < n1" "k' < n2" "l' < n3" for i' j' k' l'
  proof (cases "(j', l', k', i') = (j, l, k, i)")
    case True
    then show ?thesis
      using cells [OF that] notin p get4_upd4 [OF Cons.prems(3) rng] by simp
  next
    case False
    then have ne: "\<not> (i' = i \<and> j' = j \<and> k' = k \<and> l' = l)" by auto
    have eq: "get4 ?r1 i' j' k' l' = get4 res i' j' k' l'"
      by (simp only: get4_upd4 [OF Cons.prems(3) rng] ne if_False)
    have mem: "((j', l', k', i') \<in> set (p # ps)) = ((j', l', k', i') \<in> set ps)"
      using False p by auto
    show ?thesis by (simp only: mem cells [OF that] eq)
  qed
  ultimately show ?case using r(2) by blast
qed

lemma iprime_bound:
  assumes "0 < dt" "int i < n div dt" "int r < dt"
  shows "int i * dt + int r < n"
proof -
  have "int i + 1 \<le> n div dt" using assms(2) by simp
  then have "(int i + 1) * dt \<le> (n div dt) * dt"
    using assms(1) by (intro mult_right_mono) simp_all
  also have "(n div dt) * dt \<le> n"
    using assms(1) by (simp add: div_mult_self_is_m minus_mod_eq_div_mult [symmetric])
  finally have "(int i + 1) * dt \<le> n" .
  moreover have "int i * dt + int r < (int i + 1) * dt"
    using assms(3) by (simp add: algebra_simps)
  ultimately show ?thesis by linarith
qed

lemma rd4_in_range:
  assumes "0 \<le> ip" "ip < int (length data)"
  shows "rd4 data ip j k l = Inr (get4 data (nat ip) j k l)"
  using assms by (simp add: rd4_def py_index_def)

lemma jit_rloop:
  assumes sh: "cube_shape res (n0, n1, n2, n3)" and rng: "i < n0" "j < n1" "k < n2" "l < n3"
    and kd: "k < length delay"
    and rd: "\<forall>r \<in> set rs. 0 \<le> int i * dt + delay ! k + int r \<and>
                int i * dt + delay ! k + int r < int (length data)"
  shows "for_each (dedisperseresample_jit_step data delay dt i j k l) rs (res, w) =
     Inr (upd4 res i j k l
            (get4 res i j k l +
             sum_list (map (\<lambda>r. get4 data (nat (int i * dt + delay ! k + int r)) j k l) rs)),
          w + length (filter (\<lambda>v. v \<noteq> 0)
                (map (\<lambda>r. get4 data (nat (int i * dt + delay ! k + int r)) j k l) rs)))"
  using sh rd
proof (induction rs arbitrary: res w)
  case Nil
  then show ?case by (simp add: upd4_same)
next
  case (Cons r rs)
  let ?v = "get4 data (nat (int i * dt + delay ! k + int r)) j k l"
  let ?r1 = "upd4 res i j k l (get4 res i j k l + ?v)"
  have step: "dedisperseresample_jit_step data delay dt i j k l r (res, w) =
      Inr (?r1, if ?v \<noteq> 0 then w + 1 else w)"
    using Cons.prems(2) kd
    by (simp add: dedisperseresample_jit_step_def rd_delay_def rd4_in_range)
  have sh1: "cube_shape ?r1 (n0, n1, n2, n3)"
    using Cons.prems(1) by (simp add: cube_shape_upd4)
  have g1: "get4 ?r1 i j k l = get4 res i j k l + ?v"
    using get4_upd4 [OF Cons.prems(1) rng] by simp
  have u1: "upd4 ?r1 i j k l x = upd4 res i j k l x" for x
    using upd4_upd4 [OF Cons.prems(1) rng] by simp
  have "for_each (dedisperseresample_jit_step data delay dt i j k l) rs
          (?r1, if ?v \<noteq> 0 then w + 1 else w) =
     Inr (upd4 ?r1 i j k l
            (get4 ?r1 i j k l +
             sum_list (map (\<lambda>r. get4 data (nat (int i * dt + delay ! k + int r)) j k l) rs)),
          (if ?v \<noteq> 0 then w + 1 else w) + length (filter (\<lambda>v. v \<noteq> 0)
                (map (\<lambda>r. get4 data (nat (int i * dt + delay ! k + int r)) j k l) rs)))"
    using Cons.prems(2) by (intro Cons.IH [OF sh1]) simp
  then show ?case
    using step by (simp add: g1 u1 add.assoc [where 'a = complex])
qed

lemma jit_cell:
  assumes sh: "cube_shape res (n0, n1, n2, n3)" and rng: "i < n0" "j < n1" "k < n2" "l < n3"
    and kd: "k < length delay"
    and rd: "\<forall>r \<in> set (py_range dt). 0 \<le> int i * dt + delay ! k + int r \<and>
                int i * dt + delay ! k + int r < int (length data)"
  shows "dedisperseresample_jit_cell data delay dt j l k i res =
     Inr (upd4 res i j k l
       (if 0 < length (filter (\<lambda>v. v \<noteq> 0) (samples data delay dt i j k l))
        then (get4 res i j k l + sum_list (samples data delay dt i j k l)) /
             of_nat (length (filter (\<lambda>v. v \<noteq> 0) (samples data delay dt i j k l)))
        else 0))"
proof -
  let ?s = "samples data delay dt i j k l"
  let ?r1 = "upd4 res i j k l (get4 res i j k l + sum_list ?s)"
  have loop: "for_each (dedisperseresample_jit_step data delay dt i j k l) (py_range dt) (res, 0) =
      Inr (?r1, length (filter (\<lambda>v. v \<noteq> 0) ?s))"
    using jit_rloop [OF sh rng kd rd, of 0] by (simp add: samples_def)
  have g1: "get4 ?r1 i j k l = get4 res i j k l + sum_list ?s"
    using get4_upd4 [OF sh rng] by simp
  have u1: "upd4 ?r1 i j k l x = upd4 res i j k l x" for x
    using upd4_upd4 [OF sh rng] by simp
  show ?thesis
    by (simp add: dedisperseresample_jit_cell_def loop g1 u1)
qed

lemma fused_jit_cells:
  assumes sh: "cube_shape data (nint, nbl, nchan, npol)" and any: "np_any data"
    and len: "length delay = nchan" and nonneg: "\<forall>d \<in> set delay. 0 \<le> d"
    and dt: "0 < dt" and fits: "Max (set delay) \<le> int nint"
  shows "\<exists>res. dedisperseresample data delay dt False = Inr res \<and>
           cube_shape res (nat ((int nint - Max (set delay)) div dt), nbl, nchan, npol) \<and>
           (\<forall>i j k l. i < nat ((int nint - Max (set delay)) div dt) \<longrightarrow> j < nbl \<longrightarrow>
                k < nchan \<longrightarrow> l < npol \<longrightarrow>
              get4 res i j k l = weighted_mean (samples data delay dt i j k l))"
proof -
  let ?dmax = "Max (set delay)"
  let ?n = "nat ((int nint - ?dmax) div dt)"
  let ?Z = "np_zeros (?n, nbl, nchan, npol)"
  let ?ps = "List.product [0..<nbl] (List.product [0..<npol] (List.product [0..<nchan] [0..<?n]))"
  let ?C = "\<lambda>(j, l, k, i). dedisperseresample_jit_cell data delay dt j l k i"
  let ?h = "\<lambda>j l k i g.
       if 0 < length (filter (\<lambda>v. v \<noteq> 0) (samples data delay dt i j k l))
        then (g + sum_list (samples data delay dt i j k l)) /
             of_nat (length (filter (\<lambda>v. v \<noteq> 0) (samples data delay dt i j k l)))
        else (0::complex)"
  have dims: "0 < nint" "0 < nbl" "0 < nchan" "0 < npol"
    using np_any_dims [OF sh any] by simp_all
  have ne: "delay \<noteq> []" using len dims by auto
  have shp: "shape data = (nint, nbl, nchan, npol)" by (rule shape_of_cube_shape [OF sh any])
  have dm: "delay_max delay = Inr ?dmax" by (rule delay_max_Max [OF ne])
  have nn: "0 \<le> (int nint - ?dmax) div dt"
    using fits dt by (simp add: pos_imp_zdiv_nonneg_iff)
  have lenZ: "length ?Z = ?n" by (simp add: np_zeros_def)
  have lenD: "length data = nint" using sh by (simp add: cube_shape_def)
  have unfold: "dedisperseresample data delay dt False = for_each ?C ?ps ?Z"
    using any nn
    by (simp add: dedisperseresample_def dm shp dedisperseresample_jit_def lenZ
        for_each_nest4 Let_def)
  have "\<exists>res'. for_each ?C ?ps ?Z = Inr res' \<and> cube_shape res' (?n, nbl, nchan, npol) \<and>
           (\<forall>i j k l. i < ?n \<longrightarrow> j < nbl \<longrightarrow> k < nchan \<longrightarrow> l < npol \<longrightarrow>
              get4 res' i j k l =
                (if (j, l, k, i) \<in> set ?ps then ?h j l k i (get4 ?Z i j k l)
                 else get4 ?Z i j k l))"
  proof (rule for_each_cells)
    show "distinct ?ps" by (simp add: distinct_product)
    show "\<And>j l k i. (j, l, k, i) \<in> set ?ps \<Longrightarrow> i < ?n \<and> j < nbl \<and> k < nchan \<and> l < npol"
      by auto
    show "cube_shape ?Z (?n, nbl, nchan, npol)" by (rule cube_shape_zeros)
    fix j l k i r
    assume mem: "(j, l, k, i) \<in> set ?ps" and shr: "cube_shape r (?n, nbl, nchan, npol)"
    then have rng: "i < ?n" "j < nbl" "k < nchan" "l < npol" by auto
    have kd: "k < length delay" using rng len by simp
    have dk: "0 \<le> delay ! k" "delay ! k \<le> ?dmax"
      using kd nonneg by (auto simp: nth_mem)
    have rd: "\<forall>r \<in> set (py_range dt). 0 \<le> int i * dt + delay ! k + int r \<and>
                int i * dt + delay ! k + int r < int (length data)"
    proof
      fix r assume "r \<in> set (py_range dt)"
      then have r: "int r < dt" by (auto simp: py_range_def)
      have "int i < (int nint - ?dmax) div dt" using rng(1) by simp
      then have "int i * dt + int r < int nint - ?dmax"
        using iprime_bound [OF dt _ r] by simp
      moreover have "0 \<le> int i * dt" using dt by simp
      ultimately show "0 \<le> int i * dt + delay ! k + int r \<and>
                int i * dt + delay ! k + int r < int (length data)"
        using dk lenD by simp
    qed
    show "?C (j, l, k, i) r = Inr (upd4 r i j k l (?h j l k i (get4 r i j k l)))"
      using jit_cell [OF shr rng kd rd] by simp
  qed
  then obtain res where r: "for_each ?C ?ps ?Z = Inr res" "cube_shape res (?n, nbl, nchan, npol)"
    and cells: "\<And>i j k l. i < ?n \<Longrightarrow> j < nbl \<Longrightarrow> k < nchan \<Longrightarrow> l < npol \<Longrightarrow>
              get4 res i j k l =
                (if (j, l, k, i) \<in> set ?ps then ?h j l k i (get4 ?Z i j k l)
                 else get4 ?Z i j k l)"
    by blast
  have "get4 res i j k l = weighted_mean (samples data delay dt i j k l)"
    if "i < ?n" "j < nbl" "k < nchan" "l < npol" for i j k l
    using cells [OF that] that get4_zeros [OF that]
    by (simp add: weighted_mean_def Let_def)
  then show ?thesis using unfold r by auto
qed

lemma sum_list_nonzero: "sum_list (filter (\<lambda>v. v \<noteq> 0) vs) = sum_list (vs :: complex list)"
  by (induction vs) simp_all

lemma weighted_mean_single:
  assumes "filter (\<lambda>v. v \<noteq> 0) vs = [s]"
  shows "weighted_mean vs = s"
  using assms sum_list_nonzero [of vs] by (simp add: weighted_mean_def)

lemma weighted_mean_none:
  assumes "filter (\<lambda>v. v \<noteq> 0) vs = []"
  shows "weighted_mean vs = 0"
  using assms by (simp add: weighted_mean_def)

text \<open>
  C7.  For a well-formed call of the sequential fused kernel (a rectangular cube with
  a sample that is not zero, one delay per channel, delays that are not negative and
  not beyond the cube, a positive factor), every output cell is the sum of its \<open>dt\<close>
  input samples \<open>in[i*dt + delay[k] + r]\<close> over the number of them that are not zero;
  a cell with exactly one such sample is that sample, and a cell with none is 0.
\<close>

theorem dedisperseresample_weighted_cells:
  assumes "cube_shape data (nint, nbl, nchan, npol)" and "np_any data"
    and "length delay = nchan" and "\<forall>d \<in> set delay. 0 \<le> d"
    and "0 < dt" and "Max (set delay) \<le> int nint"
  shows "\<exists>res. dedisperseresample data delay dt False = Inr res \<and>
           (\<forall>i j k l. i < nat ((int nint - Max (set delay)) div dt) \<longrightarrow> j < nbl \<longrightarrow>
                k < nchan \<longrightarrow> l < npol \<longrightarrow>
              get4 res i j k l = weighted_mean (samples data delay dt i j k l) \<and>
              (\<forall>s. filter (\<lambda>v. v \<noteq> 0) (samples data delay dt i j k l) = [s] \<longrightarrow>
                   get4 res i j k l = s) \<and>
              (filter (\<lambda>v. v \<noteq> 0) (samples data delay dt i j k l) = [] \<longrightarrow>
                   get4 res i j k l = 0))"
proof -
  obtain res where r: "dedisperseresample data delay dt False = Inr res"
    and cells: "\<And>i j k l. i < nat ((int nint - Max (set delay)) div dt) \<Longrightarrow> j < nbl \<Longrightarrow>
                k < nchan \<Longrightarrow> l < npol \<Longrightarrow>
              get4 res i j k l = weighted_mean (samples data delay dt i j k l)"
    using fused_jit_cells [OF assms] by blast
  show ?thesis
    using r cells weighted_mean_single weighted_mean_none by (intro exI [of _ res]) auto
qed

lemma upt_0_2: "[0..<2] = [0, Suc 0]"
  by (simp add: numeral_2_eq_2)

theorem dedisperseresample_weighted_cells_witness:
  "\<exists>res. dedisperseresample [[[[0]]], [[[5]]], [[[0]]], [[[0]]]] [0] 2 False = Inr res \<and>
         get4 res 0 0 0 0 = 5 \<and> get4 res 1 0 0 0 = 0"
proof -
  let ?D = "[[[[0]]], [[[5]]], [[[0]]], [[[0]]]] :: cube"
  let ?P = "\<lambda>res i j k l.
              get4 res i j k l = weighted_mean (samples ?D [0] 2 i j k l) \<and>
              (\<forall>s. filter (\<lambda>v. v \<noteq> 0) (samples ?D [0] 2 i j k l) = [s] \<longrightarrow>
                   get4 res i j k l = s) \<and>
              (filter (\<lambda>v. v \<noteq> 0) (samples ?D [0] 2 i j k l) = [] \<longrightarrow>
                   get4 res i j k l = 0)"
  have h: "cube_shape ?D (4, 1, 1, 1)" "np_any ?D" "length [0::int] = 1"
    "\<forall>d \<in> set [0::int]. 0 \<le> d" "0 < (2::int)" "Max (set [0::int]) \<le> int 4"
    by (simp_all add: cube_shape_def np_any_def)
  obtain res where r: "dedisperseresample ?D [0] 2 False = Inr res"
    and c: "\<forall>i j k l. i < nat ((int 4 - Max (set [0])) div 2) \<longrightarrow> j < 1 \<longrightarrow>
                k < 1 \<longrightarrow> l < 1 \<longrightarrow> ?P res i j k l"
    using dedisperseresample_weighted_cells [OF h] by (elim exE conjE)
  have s0: "samples ?D [0] 2 0 0 0 0 = [0, 5]"
    by (simp add: samples_def py_range_def upt_0_2 get4_def)
  have s1: "samples ?D [0] 2 (Suc 0) 0 0 0 = [0, 0]"
    by (simp add: samples_def py_range_def upt_0_2 get4_def numeral_3_eq_3 numeral_2_eq_2)
  have p0: "(0::nat) < nat ((int 4 - Max (set [0])) div 2)" by simp
  have p1: "(1::nat) < nat ((int 4 - Max (set [0])) div 2)" by simp
  have "?P res 0 0 0 0"
    by (rule c [rule_format, OF p0 zero_less_one zero_less_one zero_less_one])
  then have "get4 res 0 0 0 0 = 5" by (simp add: s0 weighted_mean_def)
  moreover have "?P res 1 0 0 0"
    by (rule c [rule_format, OF p1 zero_less_one zero_less_one zero_less_one])
  then have "get4 res 1 0 0 0 = 0" by (simp add: s1 weighted_mean_def)
  ultimately show ?thesis using r by (intro exI [of _ res]) simp
qed

subsection \<open>Zero delays and factor one\<close>

lemma weighted_mean_one: "weighted_mean [v] = v"
  by (simp add: weighted_mean_def)

lemma zero_delay_max:
  assumes "delay \<noteq> []" "\<forall>d \<in> set delay. d = 0"
  shows "Max (set delay) = 0"
proof -
  have "set delay = {0}" using assms by (cases delay) auto
  then show ?thesis by simp
qed

lemma fused_gu_identity:
  assumes "delay_max delay = Inr 0"
  shows "dedisperseresample_gu data delay 1 = Inr data"
proof -
  have "dedisperseresample_gu_kernel delay 1 j data = Inr data" for j
    using assms by (simp add: dedisperseresample_gu_kernel_def)
  then have "for_each (dedisperseresample_gu_kernel delay 1) js data = Inr data" for js
    by (intro for_each_const) simp
  then show ?thesis
    by (simp add: dedisperseresample_gu_def split: prod.splits)
qed

lemma fused_jit_identity:
  assumes sh: "cube_shape data (nint, nbl, nchan, npol)" and any: "np_any data"
    and len: "length delay = nchan" and zero: "\<forall>d \<in> set delay. d = 0"
  shows "dedisperseresample data delay 1 False = Inr data"
proof -
  have dims: "0 < nint" "0 < nbl" "0 < nchan" "0 < npol"
    using np_any_dims [OF sh any] by simp_all
  have ne: "delay \<noteq> []" using len dims by auto
  have mx: "Max (set delay) = 0" by (rule zero_delay_max [OF ne zero])
  have "\<forall>d \<in> set delay. 0 \<le> d" using zero by auto
  moreover have "Max (set delay) \<le> int nint" using mx by simp
  ultimately obtain res where r: "dedisperseresample data delay 1 False = Inr res"
    and shr: "cube_shape res (nat ((int nint - Max (set delay)) div 1), nbl, nchan, npol)"
    and cells: "\<And>i j k l. i < nat ((int nint - Max (set delay)) div 1) \<Longrightarrow> j < nbl \<Longrightarrow>
              k < nchan \<Longrightarrow> l < npol \<Longrightarrow>
            get4 res i j k l = weighted_mean (samples data delay 1 i j k l)"
    using fused_jit_cells [OF sh any len, of 1] by auto
  have shr': "cube_shape res (nint, nbl, nchan, npol)" using shr mx by simp
  have "get4 res i j k l = get4 data i j k l"
    if "i < nint" "j < nbl" "k < nchan" "l < npol" for i j k l
  proof -
    have "delay ! k = 0" using zero that(3) len by (simp add: nth_mem)
    then have "samples data delay 1 i j k l = [get4 data i j k l]"
      by (simp add: samples_def py_range_def)
    then show ?thesis using cells [of i j k l] that mx by (simp add: weighted_mean_one)
  qed
  then have "res = data" by (rule cube_ext [OF shr' sh])
  then show ?thesis using r by simp
qed

text \<open>
  C6 (as amended).  On a rectangular cube with a sample that is not zero, with one
  delay per channel, all delays zero and factor 1, \<open>dedisperseresample\<close> returns the
  cube itself, on the sequential and on the parallel backend.
\<close>

theorem dedisperseresample_identity:
  assumes sh: "cube_shape data (nint, nbl, nchan, npol)" and any: "np_any data"
    and len: "length delay = nchan" and zero: "\<forall>d \<in> set delay. d = 0"
  shows "dedisperseresample data delay 1 parallel = Inr data"
proof (cases parallel)
  case True
  have dims: "0 < nint" "0 < nbl" "0 < nchan" "0 < npol"
    using np_any_dims [OF sh any] by simp_all
  have ne: "delay \<noteq> []" using len dims by auto
  have mx: "Max (set delay) = 0" by (rule zero_delay_max [OF ne zero])
  have dm: "delay_max delay = Inr 0" using delay_max_Max [OF ne] mx by simp
  show ?thesis
    using any True by (simp add: dedisperseresample_def dm fused_gu_identity py_slice0_def
        split: prod.splits)
next
  case False
  then show ?thesis using fused_jit_identity [OF sh any len zero] by simp
qed

theorem dedisperseresample_identity_witness:
  "dedisperseresample [[[[1, 0], [0, 2]]], [[[0, 0], [3, 0]]]] [0, 0] 1 False =
     Inr [[[[1, 0], [0, 2]]], [[[0, 0], [3, 0]]]] \<and>
   dedisperseresample [[[[1, 0], [0, 2]]], [[[0, 0], [3, 0]]]] [0, 0] 1 True =
     Inr [[[[1, 0], [0, 2]]], [[[0, 0], [3, 0]]]]"
  using dedisperseresample_identity
    [of "[[[[1, 0], [0, 2]]], [[[0, 0], [3, 0]]]]" 2 1 2 2 "[0, 0]"]
  by (simp add: cube_shape_def np_any_def)

text \<open>
  C6 as stated fails on a cube of zeros: the guard \<^verbatim>\<open>if not np.any(data)\<close> returns the
  empty array, which is not the cube.
\<close>

theorem dedisperseresample_identity_counterexample:
  "dedisperseresample [[[[0]]]] [0] 1 False = Inr [] \<and>
   dedisperseresample [[[[0]]]] [0] 1 True = Inr [] \<and>
   ([] :: cube) \<noteq> [[[[0]]]]"
  by (simp add: dedisperseresample_def np_any_def)

section \<open>Properties of the gridder\<close>

lemma grid_shape_nth:
  "grid_shape g (n0, nx, ny) \<longleftrightarrow>
     length g = n0 \<and> (\<forall>i < n0. length (g ! i) = nx \<and> (\<forall>a < nx. length (g ! i ! a) = ny))"
  unfolding grid_shape_def all_set_conv_all_nth by auto

lemma grid_shape_upd3:
  "grid_shape (upd3 g i a b x) (n0, nx, ny) = grid_shape g (n0, nx, ny)"
proof -
  let ?B = "(g ! i ! a)[b := x]"
  let ?A = "(g ! i)[a := ?B]"
  have c: "(\<forall>c \<in> set ?A. length c = ny) = (\<forall>c \<in> set (g ! i). length c = ny)"
    by (rule ball_set_update) simp
  have "(\<forall>p \<in> set (g[i := ?A]). length p = nx \<and> (\<forall>c \<in> set p. length c = ny)) =
        (\<forall>p \<in> set g. length p = nx \<and> (\<forall>c \<in> set p. length c = ny))"
    by (rule ball_set_update) (simp add: c)
  then show ?thesis by (simp add: grid_shape_def upd3_def)
qed

lemma get3_upd3:
  assumes "grid_shape g (n0, nx, ny)" "i < n0" "a < nx" "b < ny"
  shows "get3 (upd3 g i a b x) i' a' b' =
         (if i' = i \<and> a' = a \<and> b' = b then x else get3 g i' a' b')"
  using assms unfolding grid_shape_nth upd3_def get3_def
  by (auto simp: nth_list_update)

lemma grid_ext:
  assumes "grid_shape g (n0, nx, ny)" "grid_shape h (n0, nx, ny)"
    and "\<And>i a b. i < n0 \<Longrightarrow> a < nx \<Longrightarrow> b < ny \<Longrightarrow> get3 g i a b = get3 h i a b"
  shows "g = h"
  using assms unfolding grid_shape_nth get3_def
  by (auto intro!: nth_equalityI)

lemma grid_shape_zeros:
  "grid_shape (replicate n0 (replicate nx (replicate ny 0))) (n0, nx, ny)"
  by (auto simp: grid_shape_def)

lemma get3_zeros:
  "i < n0 \<Longrightarrow> a < nx \<Longrightarrow> b < ny \<Longrightarrow>
   get3 (replicate n0 (replicate nx (replicate ny 0))) i a b = 0"
  by (simp add: get3_def)

subsection \<open>Loop bodies that add to the grids\<close>

lemma addsI:
  assumes "\<And>g. grid_shape g (n0, nx, ny) \<Longrightarrow>
             \<exists>g'. body g = Inr g' \<and> grid_shape g' (n0, nx, ny) \<and>
               (\<forall>i a b. i < n0 \<longrightarrow> a < nx \<longrightarrow> b < ny \<longrightarrow>
                  get3 g' i a b = get3 g i a b + F i a b)"
  shows "adds (n0, nx, ny) body F"
  using assms by (simp add: adds_def)

lemma addsD:
  assumes "adds (n0, nx, ny) body F" "grid_shape g (n0, nx, ny)"
  obtains g' where "body g = Inr g'" "grid_shape g' (n0, nx, ny)"
    "\<And>i a b. i < n0 \<Longrightarrow> a < nx \<Longrightarrow> b < ny \<Longrightarrow> get3 g' i a b = get3 g i a b + F i a b"
  using assms unfolding adds_def by fastforce

lemma adds_skip: "adds (n0, nx, ny) Inr (\<lambda>i a b. 0)"
  by (rule addsI) simp

lemma adds_accumulate:
  assumes "i0 < n0" "a0 < nx" "b0 < ny"
  shows "adds (n0, nx, ny) (\<lambda>g. Inr (accumulate g i0 a0 b0 d))
           (\<lambda>i a b. if i = i0 \<and> a = a0 \<and> b = b0 then d else 0)"
proof (rule addsI)
  fix g assume sh: "grid_shape g (n0, nx, ny)"
  have "grid_shape (accumulate g i0 a0 b0 d) (n0, nx, ny)"
    using sh by (simp add: accumulate_def grid_shape_upd3)
  moreover have "get3 (accumulate g i0 a0 b0 d) i a b =
      get3 g i a b + (if i = i0 \<and> a = a0 \<and> b = b0 then d else 0)" for i a b
    using get3_upd3 [OF sh assms] by (simp add: accumulate_def)
  ultimately show "\<exists>g'. Inr (accumulate g i0 a0 b0 d) = Inr g' \<and> grid_shape g' (n0, nx, ny) \<and>
      (\<forall>i a b. i < n0 \<longrightarrow> a < nx \<longrightarrow> b < ny \<longrightarrow>
         get3 g' i a b = get3 g i a b + (if i = i0 \<and> a = a0 \<and> b = b0 then d else 0))"
    by blast
qed

lemma adds_for_each:
  assumes "\<And>x. x \<in> set xs \<Longrightarrow> adds (n0, nx, ny) (body x) (F x)"
  shows "adds (n0, nx, ny) (for_each body xs) (\<lambda>i a b. sum_list (map (\<lambda>x. F x i a b) xs))"
  using assms
proof (induction xs)
  case Nil
  show ?case by (rule addsI) simp
next
  case (Cons x xs)
  have hd: "adds (n0, nx, ny) (body x) (F x)" using Cons.prems by simp
  have tl: "adds (n0, nx, ny) (for_each body xs) (\<lambda>i a b. sum_list (map (\<lambda>x. F x i a b) xs))"
    using Cons.IH Cons.prems by simp
  show ?case
  proof (rule addsI)
    fix g assume sh: "grid_shape g (n0, nx, ny)"
    from addsD [OF hd sh] obtain g1 where g1: "body x g = Inr g1" "grid_shape g1 (n0, nx, ny)"
      and c1: "\<And>i a b. i < n0 \<Longrightarrow> a < nx \<Longrightarrow> b < ny \<Longrightarrow> get3 g1 i a b = get3 g i a b + F x i a b"
      by blast
    from addsD [OF tl g1(2)] obtain g2 where g2: "for_each body xs g1 = Inr g2"
        "grid_shape g2 (n0, nx, ny)"
      and c2: "\<And>i a b. i < n0 \<Longrightarrow> a < nx \<Longrightarrow> b < ny \<Longrightarrow>
                 get3 g2 i a b = get3 g1 i a b + sum_list (map (\<lambda>x. F x i a b) xs)"
      by blast
    have "for_each body (x # xs) g = Inr g2" using g1(1) g2(1) by simp
    moreover have "get3 g2 i a b = get3 g i a b + sum_list (map (\<lambda>x. F x i a b) (x # xs))"
      if "i < n0" "a < nx" "b < ny" for i a b
      using c1 [OF that] c2 [OF that] by simp
    ultimately show "\<exists>g'. for_each body (x # xs) g = Inr g' \<and> grid_shape g' (n0, nx, ny) \<and>
        (\<forall>i a b. i < n0 \<longrightarrow> a < nx \<longrightarrow> b < ny \<longrightarrow>
           get3 g' i a b = get3 g i a b + sum_list (map (\<lambda>x. F x i a b) (x # xs)))"
      using g2(2) by blast
  qed
qed

lemma adds_cong:
  assumes "adds (n0, nx, ny) body F"
    and "\<And>i a b. i < n0 \<Longrightarrow> a < nx \<Longrightarrow> b < ny \<Longrightarrow> F i a b = F' i a b"
  shows "adds (n0, nx, ny) body F'"
proof (rule addsI)
  fix g assume sh: "grid_shape g (n0, nx, ny)"
  from addsD [OF assms(1) sh] obtain g' where g': "body g = Inr g'" "grid_shape g' (n0, nx, ny)"
    and c: "\<And>i a b. i < n0 \<Longrightarrow> a < nx \<Longrightarrow> b < ny \<Longrightarrow> get3 g' i a b = get3 g i a b + F i a b"
    by blast
  have "get3 g' i a b = get3 g i a b + F' i a b" if "i < n0" "a < nx" "b < ny" for i a b
    using c [OF that] assms(2) [OF that] by simp
  then show "\<exists>g'. body g = Inr g' \<and> grid_shape g' (n0, nx, ny) \<and>
      (\<forall>i a b. i < n0 \<longrightarrow> a < nx \<longrightarrow> b < ny \<longrightarrow> get3 g' i a b = get3 g i a b + F' i a b)"
    using g' by blast
qed

lemma sum_list_if_const:
  "sum_list (map (\<lambda>x. if c then f x else (0::complex)) xs) = (if c then sum_list (map f xs) else 0)"
  by (induction xs) simp_all

lemma sum_list_zero:
  "(\<And>x. x \<in> set xs \<Longrightarrow> f x = (0::complex)) \<Longrightarrow> sum_list (map f xs) = 0"
  by (induction xs) simp_all

lemma sum_list_delta:
  "i < n \<Longrightarrow> sum_list (map (\<lambda>x. if i = x then f x else (0::complex)) [0..<n]) = f i"
proof (induction n)
  case 0
  then show ?case by simp
next
  case (Suc n)
  show ?case
  proof (cases "i = n")
    case True
    have "sum_list (map (\<lambda>x. if i = x then f x else 0) [0..<n]) = 0"
      using True by (intro sum_list_zero) auto
    then show ?thesis using True by simp
  next
    case False
    then have "i < n" using Suc.prems by simp
    then show ?thesis using Suc.IH False by simp
  qed
qed

subsection \<open>Both backends in closed form\<close>

lemma mod_cell_bound: "0 < n \<Longrightarrow> nat (x mod int n) < n"
  by (simp add: nat_less_iff)

lemma trunc_real_abs_le: "\<bar>of_int (trunc_real x) :: real\<bar> \<le> \<bar>x\<bar>"
proof (cases "0 \<le> x")
  case True
  then have "0 \<le> \<lfloor>x\<rfloor>" by simp
  then show ?thesis using True by (simp add: trunc_real_def)
next
  case False
  then have "\<lceil>x\<rceil> \<le> 0" by (simp add: ceiling_le_iff)
  moreover have "x \<le> of_int \<lceil>x\<rceil>" by (rule le_of_int_ceiling)
  ultimately show ?thesis using False by (simp add: trunc_real_def)
qed

lemma np_round_bounds: "\<lfloor>x\<rfloor> \<le> np_round x \<and> np_round x \<le> \<lfloor>x\<rfloor> + 1"
  by (simp add: np_round_def Let_def)

lemma int64_trunc:
  assumes "\<bar>x\<bar> < 2 ^ 62"
  shows "int64 x = trunc_real x"
proof -
  have "\<bar>of_int (trunc_real x) :: real\<bar> < 2 ^ 62"
    using trunc_real_abs_le [of x] assms by linarith
  then have "\<bar>trunc_real x\<bar> < 2 ^ 62"
    by (metis of_int_abs of_int_less_numeral_power_cancel_iff)
  then have "\<bar>trunc_real x\<bar> < 4611686018427387904" by simp
  then have "- 9223372036854775808 \<le> trunc_real x \<and> trunc_real x < 9223372036854775808"
    by linarith
  then show ?thesis by (simp add: int64_def Let_def)
qed

lemma np_round_small:
  assumes "\<bar>x\<bar> < 2 ^ 62"
  shows "\<bar>np_round x\<bar> < 2 ^ 63"
proof -
  have "- (2 ^ 62) \<le> x" "x < 2 ^ 62" using assms by simp_all
  then have fl: "- 4611686018427387904 \<le> \<lfloor>x\<rfloor>" "\<lfloor>x\<rfloor> < 4611686018427387904"
    by (simp_all add: le_floor_iff floor_less_iff)
  have "- 9223372036854775808 < np_round x \<and> np_round x < 9223372036854775808"
    using fl np_round_bounds [of x] by linarith
  then show ?thesis by (simp add: abs_less_iff)
qed

lemma int64_round:
  assumes "\<bar>x\<bar> < 2 ^ 62"
  shows "int64 (of_int (np_round x)) = np_round x"
    and "abs_int64 (np_round x) = \<bar>np_round x\<bar>"
  using np_round_small [OF assms]
  by (simp_all add: int64_def trunc_real_def abs_int64_def Let_def abs_less_iff)

lemma gu_step_adds:
  assumes "i0 < nint" "0 < npixx" "0 < npixy" "uvres \<noteq> 0"
    and bu: "\<bar>u ! j ! k / of_int uvres\<bar> < 2 ^ 62"
    and bv: "\<bar>v ! j ! k / of_int uvres\<bar> < 2 ^ 62"
  shows "adds (nint, npixx, npixy)
     (\<lambda>g. if uvres = 0 then Inl ZeroDivisionError
            else
              (let ubl = int64 (of_int (np_round (u ! j ! k / of_int uvres)));
                   vbl = int64 (of_int (np_round (v ! j ! k / of_int uvres)))
               in if abs_int64 ubl < int npixx div 2 \<and> abs_int64 vbl < int npixy div 2 then
                    if npixx = 0 \<or> npixy = 0 then Inl ZeroDivisionError
                    else
                      (let um = nat (ubl mod int npixx);
                           vm = nat (vbl mod int npixy)
                       in for_each (\<lambda>l g1.
                            Inr (accumulate g1 i0 um vm (get4 data i0 j k l)))
                            [0..<npol] g)
                  else Inr g))
     (\<lambda>i a b. if i = i0 then
                  (if spec_kept np_round u v npixx npixy uvres j k \<and>
                      spec_cell np_round u v npixx npixy uvres j k = (a, b)
                   then sum_list (map (\<lambda>l. get4 data i0 j k l) [0..<npol]) else 0)
                else 0)"
    (is "adds _ ?body ?F")
proof (cases "spec_kept np_round u v npixx npixy uvres j k")
  case False
  have "?body = Inr"
    using False assms(1-4)
    by (intro ext) (auto simp: spec_kept_def Let_def int64_round [OF bu] int64_round [OF bv])
  moreover have "?F = (\<lambda>i a b. 0)"
    using False by (intro ext) simp
  ultimately show ?thesis using adds_skip [of nint npixx npixy] by simp
next
  case True
  let ?um = "nat (np_round (u ! j ! k / of_int uvres) mod int npixx)"
  let ?vm = "nat (np_round (v ! j ! k / of_int uvres) mod int npixy)"
  have kept: "\<bar>np_round (u ! j ! k / of_int uvres)\<bar> < int npixx div 2"
    "\<bar>np_round (v ! j ! k / of_int uvres)\<bar> < int npixy div 2"
    using True by (auto simp: spec_kept_def)
  have cell: "spec_cell np_round u v npixx npixy uvres j k = (?um, ?vm)"
    by (simp add: spec_cell_def)
  have rng: "?um < npixx" "?vm < npixy"
    using assms(1-4) by (simp_all add: mod_cell_bound)
  have "adds (nint, npixx, npixy)
          (for_each (\<lambda>l g1. Inr (accumulate g1 i0 ?um ?vm (get4 data i0 j k l))) [0..<npol])
          (\<lambda>i a b. sum_list (map (\<lambda>l. if i = i0 \<and> a = ?um \<and> b = ?vm
                                        then get4 data i0 j k l else 0) [0..<npol]))"
    by (rule adds_for_each) (rule adds_accumulate [OF assms(1) rng])
  then have "adds (nint, npixx, npixy)
          (for_each (\<lambda>l g1. Inr (accumulate g1 i0 ?um ?vm (get4 data i0 j k l))) [0..<npol])
          (\<lambda>i a b. if i = i0 then
                  (if spec_kept np_round u v npixx npixy uvres j k \<and>
                      spec_cell np_round u v npixx npixy uvres j k = (a, b)
                   then sum_list (map (\<lambda>l. get4 data i0 j k l) [0..<npol]) else 0)
                else 0)"
    by (rule adds_cong) (auto simp: sum_list_if_const True cell)
  moreover have "?body =
      for_each (\<lambda>l g1. Inr (accumulate g1 i0 ?um ?vm (get4 data i0 j k l))) [0..<npol]"
    using assms(1-4) kept
    by (intro ext) (simp add: Let_def int64_round [OF bu] int64_round [OF bv])
  ultimately show ?thesis by simp
qed

lemma gu_kernel_adds:
  assumes shp: "shape data = (nint, nbl, nchan, npol)"
    and "i0 < nint" "0 < npixx" "0 < npixy" "uvres \<noteq> 0"
    and bnd: "uv_bounded u v uvres (nbl, nchan)"
  shows "adds (nint, npixx, npixy)
           (grid_visibilities_gu_kernel data u v w npixx npixy uvres i0)
           (\<lambda>i a b. if i = i0 then grid_spec np_round data u v npixx npixy uvres i0 a b else 0)"
proof -
  let ?S = "\<lambda>j k a b. if spec_kept np_round u v npixx npixy uvres j k \<and>
                      spec_cell np_round u v npixx npixy uvres j k = (a, b)
                   then sum_list (map (\<lambda>l. get4 data i0 j k l) [0..<npol]) else 0"
  have "adds (nint, npixx, npixy)
           (grid_visibilities_gu_kernel data u v w npixx npixy uvres i0)
           (\<lambda>i a b. sum_list (map (\<lambda>j. sum_list (map (\<lambda>k.
                if i = i0 then ?S j k a b else 0) [0..<nchan])) [0..<nbl]))"
    unfolding grid_visibilities_gu_kernel_def shp prod.case
    by (intro adds_for_each gu_step_adds assms(2-5)) (use bnd in \<open>simp_all add: uv_bounded_def\<close>)
  then show ?thesis
    by (rule adds_cong) (simp add: grid_spec_def shp sum_list_if_const)
qed

lemma gu_adds:
  assumes shp: "shape data = (nint, nbl, nchan, npol)"
    and "0 < npixx" "0 < npixy" "uvres \<noteq> 0"
    and bnd: "uv_bounded u v uvres (nbl, nchan)"
  shows "adds (nint, npixx, npixy)
           (grid_visibilities_gu data u v w npixx npixy uvres)
           (grid_spec np_round data u v npixx npixy uvres)"
proof -
  have len: "length data = nint" using shp by (simp add: shape_def)
  have "adds (nint, npixx, npixy)
           (grid_visibilities_gu data u v w npixx npixy uvres)
           (\<lambda>i a b. sum_list (map (\<lambda>i0. if i = i0
               then grid_spec np_round data u v npixx npixy uvres i0 a b else 0) [0..<nint]))"
    unfolding grid_visibilities_gu_def len
    by (rule adds_for_each) (rule gu_kernel_adds [OF shp _ assms(2-4) bnd], simp)
  then show ?thesis
    by (rule adds_cong) (simp add: sum_list_delta)
qed

lemma jit_step_adds:
  assumes "0 < npixx" "0 < npixy" "uvres \<noteq> 0"
    and bu: "\<bar>u ! j ! k / of_int uvres\<bar> < 2 ^ 62"
    and bv: "\<bar>v ! j ! k / of_int uvres\<bar> < 2 ^ 62"
  shows "adds (nint, npixx, npixy)
     (\<lambda>g. if uvres = 0 then Inl ZeroDivisionError
            else
              (let ubl = int64 (u ! j ! k / of_int uvres);
                   vbl = int64 (v ! j ! k / of_int uvres)
               in if ubl < int npixx div 2 \<and> vbl < int npixy div 2 then
                    if npixx = 0 \<or> npixy = 0 then Inl ZeroDivisionError
                    else
                      (let umod = nat (ubl mod int npixx);
                           vmod = nat (vbl mod int npixy)
                       in for_each (\<lambda>i.
                            for_each (\<lambda>l g1.
                              Inr (accumulate g1 i umod vmod (get4 data i j k l)))
                              [0..<npol])
                            [0..<nint] g)
                  else Inr g))
     (\<lambda>i a b. if jit_kept u v npixx npixy uvres j k \<and>
                  jit_cell u v npixx npixy uvres j k = (a, b)
               then sum_list (map (\<lambda>l. get4 data i j k l) [0..<npol]) else 0)"
    (is "adds _ ?body ?F")
proof (cases "jit_kept u v npixx npixy uvres j k")
  case False
  have "?body = Inr"
    using False assms(1-3)
    by (intro ext) (auto simp: jit_kept_def Let_def int64_trunc [OF bu] int64_trunc [OF bv])
  moreover have "?F = (\<lambda>i a b. 0)"
    using False by (intro ext) simp
  ultimately show ?thesis using adds_skip [of nint npixx npixy] by simp
next
  case True
  let ?um = "nat (trunc_real (u ! j ! k / of_int uvres) mod int npixx)"
  let ?vm = "nat (trunc_real (v ! j ! k / of_int uvres) mod int npixy)"
  have kept: "trunc_real (u ! j ! k / of_int uvres) < int npixx div 2"
    "trunc_real (v ! j ! k / of_int uvres) < int npixy div 2"
    using True by (auto simp: jit_kept_def)
  have cell: "jit_cell u v npixx npixy uvres j k = (?um, ?vm)"
    by (simp add: jit_cell_def)
  have rng: "?um < npixx" "?vm < npixy"
    using assms(1-3) by (simp_all add: mod_cell_bound)
  have inner: "adds (nint, npixx, npixy)
          (for_each (\<lambda>l g1. Inr (accumulate g1 i ?um ?vm (get4 data i j k l))) [0..<npol])
          (\<lambda>i' a b. if i' = i then
               (if a = ?um \<and> b = ?vm
                then sum_list (map (\<lambda>l. get4 data i j k l) [0..<npol]) else 0) else 0)"
    if "i < nint" for i
  proof -
    have "adds (nint, npixx, npixy)
          (for_each (\<lambda>l g1. Inr (accumulate g1 i ?um ?vm (get4 data i j k l))) [0..<npol])
          (\<lambda>i' a b. sum_list (map (\<lambda>l. if i' = i \<and> a = ?um \<and> b = ?vm
                                        then get4 data i j k l else 0) [0..<npol]))"
      by (rule adds_for_each) (rule adds_accumulate [OF that rng])
    then show ?thesis
      by (rule adds_cong) (auto simp: sum_list_if_const)
  qed
  have "adds (nint, npixx, npixy)
          (for_each (\<lambda>i. for_each (\<lambda>l g1.
              Inr (accumulate g1 i ?um ?vm (get4 data i j k l))) [0..<npol]) [0..<nint])
          (\<lambda>i' a b. sum_list (map (\<lambda>i. if i' = i then
               (if a = ?um \<and> b = ?vm
                then sum_list (map (\<lambda>l. get4 data i j k l) [0..<npol]) else 0) else 0)
              [0..<nint]))"
    by (rule adds_for_each) (rule inner, simp)
  then have "adds (nint, npixx, npixy)
          (for_each (\<lambda>i. for_each (\<lambda>l g1.
              Inr (accumulate g1 i ?um ?vm (get4 data i j k l))) [0..<npol]) [0..<nint])
          (\<lambda>i a b. if jit_kept u v npixx npixy uvres j k \<and>
                  jit_cell u v npixx npixy uvres j k = (a, b)
               then sum_list (map (\<lambda>l. get4 data i j k l) [0..<npol]) else 0)"
    by (rule adds_cong) (auto simp: sum_list_delta True cell)
  moreover have "?body =
      for_each (\<lambda>i. for_each (\<lambda>l g1.
              Inr (accumulate g1 i ?um ?vm (get4 data i j k l))) [0..<npol]) [0..<nint]"
    using assms(1-3) kept
    by (intro ext) (simp add: Let_def int64_trunc [OF bu] int64_trunc [OF bv])
  ultimately show ?thesis by simp
qed

lemma jit_adds:
  assumes shp: "shape data = (nint, nbl, nchan, npol)"
    and "0 < npixx" "0 < npixy" "uvres \<noteq> 0"
    and bnd: "uv_bounded u v uvres (nbl, nchan)"
  shows "adds (nint, npixx, npixy)
           (grid_visibilities_jit data u v w npixx npixy uvres)
           (jit_closed data u v npixx npixy uvres)"
proof -
  have "adds (nint, npixx, npixy)
           (grid_visibilities_jit data u v w npixx npixy uvres)
           (\<lambda>i a b. sum_list (map (\<lambda>j. sum_list (map (\<lambda>k.
                if jit_kept u v npixx npixy uvres j k \<and>
                   jit_cell u v npixx npixy uvres j k = (a, b)
                then sum_list (map (\<lambda>l. get4 data i j k l) [0..<npol]) else 0)
              [0..<nchan])) [0..<nbl]))"
    unfolding grid_visibilities_jit_def shp prod.case
    by (intro adds_for_each jit_step_adds assms(2-4)) (use bnd in \<open>simp_all add: uv_bounded_def\<close>)
  then show ?thesis
    by (rule adds_cong) (simp add: jit_closed_def shp)
qed

text \<open>From a body that adds to the grids to the grids it returns on zeros.\<close>

lemma adds_on_zeros:
  assumes "adds (nint, npixx, npixy) body F"
  obtains g where "body (replicate nint (replicate npixx (replicate npixy 0))) = Inr g"
    "grid_shape g (nint, npixx, npixy)"
    "\<And>i a b. i < nint \<Longrightarrow> a < npixx \<Longrightarrow> b < npixy \<Longrightarrow> get3 g i a b = F i a b"
proof -
  from addsD [OF assms grid_shape_zeros] obtain g
    where g: "body (replicate nint (replicate npixx (replicate npixy 0))) = Inr g"
      "grid_shape g (nint, npixx, npixy)"
      and c: "\<And>i a b. i < nint \<Longrightarrow> a < npixx \<Longrightarrow> b < npixy \<Longrightarrow>
        get3 g i a b = get3 (replicate nint (replicate npixx (replicate npixy 0))) i a b + F i a b"
    by blast
  have "get3 g i a b = F i a b" if "i < nint" "a < npixx" "b < npixy" for i a b
    using c [OF that] get3_zeros [OF that] by simp
  then show ?thesis using g that by blast
qed

lemma shape_of_cube_shape_pos:
  assumes "cube_shape data (nint, nbl, nchan, npol)" "0 < nint" "0 < nbl" "0 < nchan"
  shows "shape data = (nint, nbl, nchan, npol)"
proof -
  have len: "length data = nint" using assms(1) by (simp add: cube_shape_def)
  then have ne0: "data \<noteq> []" using assms(2) by auto
  have l1: "\<forall>b \<in> set data. length b = nbl" using assms(1) by (auto simp: cube_shape_def)
  have ne1: "concat data \<noteq> []"
  proof -
    obtain b bs where "data = b # bs" using ne0 by (cases data) auto
    moreover from this have "length b = nbl" using l1 by simp
    ultimately show ?thesis using assms(3) by auto
  qed
  have l2: "\<forall>c \<in> set (concat data). length c = nchan"
    using assms(1) by (auto simp: cube_shape_def)
  have ne2: "concat (concat data) \<noteq> []"
  proof -
    obtain c cs where "concat data = c # cs" using ne1 by (cases "concat data") auto
    moreover from this have "length c = nchan" using l2 by simp
    ultimately show ?thesis using assms(4) by auto
  qed
  have l3: "\<forall>p \<in> set (concat (concat data)). length p = npol"
    using assms(1) by (auto simp: cube_shape_def)
  show ?thesis
    using len len1_uniform [OF ne0 l1] len1_uniform [OF ne1 l2] len1_uniform [OF ne2 l3]
    by (simp add: shape_def)
qed

subsection \<open>The two backends against the specification and against each other\<close>

lemma parallel_grid_cells:
  assumes shp: "shape data = (nint, nbl, nchan, npol)"
    and "0 < npixx" "0 < npixy" "uvres \<noteq> 0"
    and "uv_bounded u v uvres (nbl, nchan)"
  obtains g where "grid_visibilities data (u, v, w) npixx npixy uvres True = Inr g"
    "grid_shape g (nint, npixx, npixy)"
    "\<And>i a b. i < nint \<Longrightarrow> a < npixx \<Longrightarrow> b < npixy \<Longrightarrow>
       get3 g i a b = grid_spec np_round data u v npixx npixy uvres i a b"
proof -
  have len: "length data = nint" using shp by (simp add: shape_def)
  from adds_on_zeros [OF gu_adds [OF assms, of w]] obtain g
    where "grid_visibilities_gu data u v w npixx npixy uvres
             (replicate nint (replicate npixx (replicate npixy 0))) = Inr g"
      "grid_shape g (nint, npixx, npixy)"
      "\<And>i a b. i < nint \<Longrightarrow> a < npixx \<Longrightarrow> b < npixy \<Longrightarrow>
         get3 g i a b = grid_spec np_round data u v npixx npixy uvres i a b"
    by blast
  then show ?thesis using that len by (simp add: grid_visibilities_def)
qed

lemma sequential_grid_cells:
  assumes shp: "shape data = (nint, nbl, nchan, npol)"
    and "0 < npixx" "0 < npixy" "uvres \<noteq> 0"
    and "uv_bounded u v uvres (nbl, nchan)"
  obtains g where "grid_visibilities data (u, v, w) npixx npixy uvres False = Inr g"
    "grid_shape g (nint, npixx, npixy)"
    "\<And>i a b. i < nint \<Longrightarrow> a < npixx \<Longrightarrow> b < npixy \<Longrightarrow>
       get3 g i a b = jit_closed data u v npixx npixy uvres i a b"
proof -
  have len: "length data = nint" using shp by (simp add: shape_def)
  from adds_on_zeros [OF jit_adds [OF assms, of w]] obtain g
    where "grid_visibilities_jit data u v w npixx npixy uvres
             (replicate nint (replicate npixx (replicate npixy 0))) = Inr g"
      "grid_shape g (nint, npixx, npixy)"
      "\<And>i a b. i < nint \<Longrightarrow> a < npixx \<Longrightarrow> b < npixy \<Longrightarrow>
         get3 g i a b = jit_closed data u v npixx npixy uvres i a b"
    by blast
  then show ?thesis using that len by (simp add: grid_visibilities_def)
qed

lemma jit_closed_trunc_spec:
  assumes shp: "shape data = (nint, nbl, nchan, npol)"
    and above: "\<forall>j < nbl. \<forall>k < nchan.
        - (int npixx div 2) < trunc_real (u ! j ! k / of_int uvres) \<and>
        - (int npixy div 2) < trunc_real (v ! j ! k / of_int uvres)"
  shows "jit_closed data u v npixx npixy uvres i a b =
         grid_spec trunc_real data u v npixx npixy uvres i a b"
proof -
  have "jit_kept u v npixx npixy uvres j k = spec_kept trunc_real u v npixx npixy uvres j k \<and>
        jit_cell u v npixx npixy uvres j k = spec_cell trunc_real u v npixx npixy uvres j k"
    if "j < nbl" "k < nchan" for j k
    using above [rule_format, OF that]
    by (auto simp: jit_kept_def spec_kept_def jit_cell_def spec_cell_def)
  then show ?thesis
    unfolding jit_closed_def grid_spec_def shp prod.case
    by (intro arg_cong [where f = sum_list] map_cong refl) simp_all
qed

text \<open>
  Outside the 64-bit range the cast decides: a visibility at \<open>u = 2^63\<close> cells is far
  outside a 4-pixel field, and both backends grid it in cell 0, the sequential one
  because the cast value passes its one-sided test, the parallel one because the
  absolute value wraps.
\<close>

lemma grid_visibilities_cast_overflow:
  "grid_visibilities [[[[1]]]] ([[2 ^ 63]], [[0]], [[0]]) 4 2 1 False =
     Inr [[[1, 0], [0, 0], [0, 0], [0, 0]]] \<and>
   grid_visibilities [[[[1]]]] ([[2 ^ 63]], [[0]], [[0]]) 4 2 1 True =
     Inr [[[1, 0], [0, 0], [0, 0], [0, 0]]] \<and>
   grid_spec np_round [[[[1]]]] [[2 ^ 63]] [[0]] 4 2 1 0 0 0 = 0"
  by (simp add: grid_visibilities_def grid_visibilities_jit_def grid_visibilities_gu_def
      grid_visibilities_gu_kernel_def grid_spec_def spec_kept_def spec_cell_def
      shape_def len1_def np_round_def trunc_real_def int64_def abs_int64_def get4_def
      accumulate_def upd3_def get3_def numeral_eq_Suc)

text \<open>
  C5 (as amended).  On a well-formed cube and coordinate set, with positive image
  sizes, a non-zero cell size and coordinates that stay inside the 64-bit range (every
  \<open>u/uvres\<close> and \<open>v/uvres\<close> below \<open>2^62\<close> in absolute value, so that the cast to
  \<open>int64\<close> is exact), the data-parallel backend returns grids in which
  every cell holds what the specification says: the sum, over the (baseline, channel)
  pairs whose rounded coordinates are in the field and fold onto the cell, of the
  visibilities of all polarizations of that integration.  The sequential backend does
  the same with truncated in place of rounded coordinates, as long as no truncated
  coordinate lies at or below the negative edge of the field.
\<close>

theorem grid_visibilities_parallel_spec:
  assumes "cube_shape data (nint, nbl, nchan, npol)" "0 < nint" "0 < nbl" "0 < nchan"
    and "uv_shape u (nbl, nchan)" "uv_shape v (nbl, nchan)"
    and "0 < npixx" "0 < npixy" "uvres \<noteq> 0"
    and "uv_bounded u v uvres (nbl, nchan)"
  shows "(\<exists>g. grid_visibilities data (u, v, w) npixx npixy uvres True = Inr g \<and>
           grid_shape g (nint, npixx, npixy) \<and>
           (\<forall>i a b. i < nint \<longrightarrow> a < npixx \<longrightarrow> b < npixy \<longrightarrow>
              get3 g i a b = grid_spec np_round data u v npixx npixy uvres i a b)) \<and>
         ((\<forall>j < nbl. \<forall>k < nchan.
             - (int npixx div 2) < trunc_real (u ! j ! k / of_int uvres) \<and>
             - (int npixy div 2) < trunc_real (v ! j ! k / of_int uvres)) \<longrightarrow>
          (\<exists>g. grid_visibilities data (u, v, w) npixx npixy uvres False = Inr g \<and>
             grid_shape g (nint, npixx, npixy) \<and>
             (\<forall>i a b. i < nint \<longrightarrow> a < npixx \<longrightarrow> b < npixy \<longrightarrow>
                get3 g i a b = grid_spec trunc_real data u v npixx npixy uvres i a b)))"
proof (intro conjI impI)
  have shp: "shape data = (nint, nbl, nchan, npol)"
    by (rule shape_of_cube_shape_pos [OF assms(1-4)])
  from parallel_grid_cells [OF shp assms(7-10), of w]
  show "\<exists>g. grid_visibilities data (u, v, w) npixx npixy uvres True = Inr g \<and>
           grid_shape g (nint, npixx, npixy) \<and>
           (\<forall>i a b. i < nint \<longrightarrow> a < npixx \<longrightarrow> b < npixy \<longrightarrow>
              get3 g i a b = grid_spec np_round data u v npixx npixy uvres i a b)"
    by metis
  assume above: "\<forall>j < nbl. \<forall>k < nchan.
             - (int npixx div 2) < trunc_real (u ! j ! k / of_int uvres) \<and>
             - (int npixy div 2) < trunc_real (v ! j ! k / of_int uvres)"
  from sequential_grid_cells [OF shp assms(7-10), of w] obtain g
    where g: "grid_visibilities data (u, v, w) npixx npixy uvres False = Inr g"
      "grid_shape g (nint, npixx, npixy)"
      and cg: "\<And>i a b. i < nint \<Longrightarrow> a < npixx \<Longrightarrow> b < npixy \<Longrightarrow>
         get3 g i a b = jit_closed data u v npixx npixy uvres i a b"
    by blast
  have "get3 g i a b = grid_spec trunc_real data u v npixx npixy uvres i a b"
    if "i < nint" "a < npixx" "b < npixy" for i a b
    using cg [OF that] jit_closed_trunc_spec [OF shp above] by simp
  then show "\<exists>g. grid_visibilities data (u, v, w) npixx npixy uvres False = Inr g \<and>
             grid_shape g (nint, npixx, npixy) \<and>
             (\<forall>i a b. i < nint \<longrightarrow> a < npixx \<longrightarrow> b < npixy \<longrightarrow>
                get3 g i a b = grid_spec trunc_real data u v npixx npixy uvres i a b)"
    using g by blast
qed

theorem grid_visibilities_parallel_spec_witness:
  "(\<exists>g. grid_visibilities [[[[1, 2]]]] ([[1]], [[0]], [[0]]) 4 2 1 True = Inr g \<and>
       get3 g 0 1 0 = 3 \<and> get3 g 0 0 0 = 0) \<and>
   (\<exists>g. grid_visibilities [[[[1, 2]]]] ([[1]], [[0]], [[0]]) 4 2 1 False = Inr g \<and>
       get3 g 0 1 0 = 3 \<and> get3 g 0 0 0 = 0)"
proof -
  let ?D = "[[[[1, 2]]]] :: cube"
  let ?Q = "\<lambda>rnd g. \<forall>i a b. i < 1 \<longrightarrow> a < 4 \<longrightarrow> b < 2 \<longrightarrow>
              get3 g i a b = grid_spec rnd ?D [[1]] [[0]] 4 2 1 i a b"
  have h: "cube_shape ?D (1, 1, 1, 2)" "0 < (1::nat)" "0 < (1::nat)" "0 < (1::nat)"
    "uv_shape [[1]] (1, 1)" "uv_shape [[0]] (1, 1)" "0 < (4::nat)" "0 < (2::nat)" "(1::int) \<noteq> 0"
    "uv_bounded [[1]] [[0]] 1 (1, 1)"
    by (simp_all add: cube_shape_def uv_shape_def uv_bounded_def)
  have above: "\<forall>j < (1::nat). \<forall>k < (1::nat).
             - (int 4 div 2) < trunc_real ([[1]] ! j ! k / of_int 1) \<and>
             - (int 2 div 2) < trunc_real ([[0]] ! j ! k / of_int 1)"
    by (simp add: trunc_real_def)
  note inst = grid_visibilities_parallel_spec [OF h, of "[[0]]"]
  from inst obtain g where g: "grid_visibilities ?D ([[1]], [[0]], [[0]]) 4 2 1 True = Inr g"
    and c: "?Q np_round g"
    by (elim exE conjE)
  from inst above obtain g' where g': "grid_visibilities ?D ([[1]], [[0]], [[0]]) 4 2 1 False = Inr g'"
    and c': "?Q trunc_real g'"
    by (elim exE conjE impE) assumption
  have s1: "grid_spec rnd ?D [[1]] [[0]] 4 2 1 0 1 0 = 3" if "rnd 1 = 1" "rnd 0 = 0" for rnd
    using that
    by (simp add: grid_spec_def shape_def len1_def spec_kept_def spec_cell_def get4_def)
  have s0: "grid_spec rnd ?D [[1]] [[0]] 4 2 1 0 0 0 = 0" if "rnd 1 = 1" "rnd 0 = 0" for rnd
    using that
    by (simp add: grid_spec_def shape_def len1_def spec_kept_def spec_cell_def get4_def)
  have r: "np_round 1 = 1" "np_round 0 = 0" by (simp_all add: np_round_def)
  have t: "trunc_real 1 = 1" "trunc_real 0 = 0" by (simp_all add: trunc_real_def)
  have "get3 g 0 1 0 = 3" using c [rule_format, of 0 1 0] s1 [OF r] by simp
  moreover have "get3 g 0 0 0 = 0" using c [rule_format, of 0 0 0] s0 [OF r] by simp
  moreover have "get3 g' 0 1 0 = 3" using c' [rule_format, of 0 1 0] s1 [OF t] by simp
  moreover have "get3 g' 0 0 0 = 0" using c' [rule_format, of 0 0 0] s0 [OF t] by simp
  ultimately show ?thesis using g g' by blast
qed

text \<open>
  C5 as stated fails on the sequential backend, which truncates instead of rounding:
  a visibility at \<open>u = -0.7\<close> cells is gridded at cell 0, while its rounded coordinate
  is -1, which folds onto cell 3 of a 4-pixel axis.
\<close>

theorem grid_visibilities_sequential_counterexample:
  "grid_visibilities [[[[1]]]] ([[- 7 / 10]], [[0]], [[0]]) 4 2 1 False =
     Inr [[[1, 0], [0, 0], [0, 0], [0, 0]]] \<and>
   grid_spec np_round [[[[1]]]] [[- 7 / 10]] [[0]] 4 2 1 0 0 0 = 0 \<and>
   grid_spec np_round [[[[1]]]] [[- 7 / 10]] [[0]] 4 2 1 0 3 0 = 1"
  by (simp add: grid_visibilities_def grid_visibilities_jit_def grid_spec_def shape_def len1_def
      spec_kept_def spec_cell_def np_round_def trunc_real_def int64_def get4_def accumulate_def
      upd3_def get3_def numeral_eq_Suc)

lemma closed_forms_agree:
  assumes shp: "shape data = (nint, nbl, nchan, npol)"
    and agree: "\<forall>j < nbl. \<forall>k < nchan.
        trunc_real (u ! j ! k / of_int uvres) = np_round (u ! j ! k / of_int uvres) \<and>
        trunc_real (v ! j ! k / of_int uvres) = np_round (v ! j ! k / of_int uvres) \<and>
        - (int npixx div 2) < trunc_real (u ! j ! k / of_int uvres) \<and>
        - (int npixy div 2) < trunc_real (v ! j ! k / of_int uvres)"
  shows "jit_closed data u v npixx npixy uvres i a b = grid_spec np_round data u v npixx npixy uvres i a b"
proof -
  have "jit_kept u v npixx npixy uvres j k = spec_kept np_round u v npixx npixy uvres j k \<and>
        jit_cell u v npixx npixy uvres j k = spec_cell np_round u v npixx npixy uvres j k"
    if "j < nbl" "k < nchan" for j k
    using agree [rule_format, OF that]
    by (auto simp: jit_kept_def spec_kept_def jit_cell_def spec_cell_def)
  then show ?thesis
    unfolding jit_closed_def grid_spec_def shp prod.case
    by (intro arg_cong [where f = sum_list] map_cong refl) simp_all
qed

text \<open>
  C4 (as amended).  On a well-formed cube and coordinate set, with positive image
  sizes, a non-zero cell size and coordinates that stay inside the 64-bit range (every
  \<open>u/uvres\<close> and \<open>v/uvres\<close> below \<open>2^62\<close> in absolute value), the sequential and the
  data-parallel backend return the same grids whenever, for every (baseline, channel),
  truncating and rounding \<open>u/uvres\<close> and \<open>v/uvres\<close> give the same integers and these lie
  above the negative edge of the field.
\<close>

theorem grid_backends_agree:
  assumes "cube_shape data (nint, nbl, nchan, npol)" "0 < nint" "0 < nbl" "0 < nchan"
    and "uv_shape u (nbl, nchan)" "uv_shape v (nbl, nchan)"
    and "0 < npixx" "0 < npixy" "uvres \<noteq> 0"
    and "uv_bounded u v uvres (nbl, nchan)"
    and "\<forall>j < nbl. \<forall>k < nchan.
        trunc_real (u ! j ! k / of_int uvres) = np_round (u ! j ! k / of_int uvres) \<and>
        trunc_real (v ! j ! k / of_int uvres) = np_round (v ! j ! k / of_int uvres) \<and>
        - (int npixx div 2) < trunc_real (u ! j ! k / of_int uvres) \<and>
        - (int npixy div 2) < trunc_real (v ! j ! k / of_int uvres)"
  shows "\<exists>g. grid_visibilities data (u, v, w) npixx npixy uvres False = Inr g \<and>
             grid_visibilities data (u, v, w) npixx npixy uvres True = Inr g"
proof -
  have shp: "shape data = (nint, nbl, nchan, npol)"
    by (rule shape_of_cube_shape_pos [OF assms(1-4)])
  from sequential_grid_cells [OF shp assms(7-10), of w] obtain g
    where g: "grid_visibilities data (u, v, w) npixx npixy uvres False = Inr g"
      "grid_shape g (nint, npixx, npixy)"
      and cg: "\<And>i a b. i < nint \<Longrightarrow> a < npixx \<Longrightarrow> b < npixy \<Longrightarrow>
         get3 g i a b = jit_closed data u v npixx npixy uvres i a b"
    by blast
  from parallel_grid_cells [OF shp assms(7-10), of w] obtain h
    where h: "grid_visibilities data (u, v, w) npixx npixy uvres True = Inr h"
      "grid_shape h (nint, npixx, npixy)"
      and ch: "\<And>i a b. i < nint \<Longrightarrow> a < npixx \<Longrightarrow> b < npixy \<Longrightarrow>
         get3 h i a b = grid_spec np_round data u v npixx npixy uvres i a b"
    by blast
  have "get3 g i a b = get3 h i a b" if "i < nint" "a < npixx" "b < npixy" for i a b
    using cg [OF that] ch [OF that] closed_forms_agree [OF shp assms(11)] by simp
  then have "g = h" by (rule grid_ext [OF g(2) h(2)])
  then show ?thesis using g(1) h(1) by simp
qed

theorem grid_backends_agree_witness:
  "\<exists>g. grid_visibilities [[[[1, 2]]]] ([[1]], [[0]], [[0]]) 4 2 1 False = Inr g \<and>
       grid_visibilities [[[[1, 2]]]] ([[1]], [[0]], [[0]]) 4 2 1 True = Inr g"
  by (rule grid_backends_agree [of _ 1 1 1 2])
     (simp_all add: cube_shape_def uv_shape_def uv_bounded_def trunc_real_def np_round_def)

text \<open>
  C4 as stated fails where truncation and rounding differ: a visibility at
  \<open>u = 1.6\<close> cells goes to cell 1 on the sequential backend and to cell 2 on the
  parallel one.
\<close>

theorem grid_backends_differ_counterexample:
  "grid_visibilities [[[[1]]]] ([[8 / 5]], [[0]], [[0]]) 6 2 1 False =
     Inr [[[0, 0], [1, 0], [0, 0], [0, 0], [0, 0], [0, 0]]] \<and>
   grid_visibilities [[[[1]]]] ([[8 / 5]], [[0]], [[0]]) 6 2 1 True =
     Inr [[[0, 0], [0, 0], [1, 0], [0, 0], [0, 0], [0, 0]]]"
  by (simp add: grid_visibilities_def grid_visibilities_jit_def grid_visibilities_gu_def
      grid_visibilities_gu_kernel_def shape_def len1_def
      np_round_def trunc_real_def int64_def abs_int64_def get4_def accumulate_def
      upd3_def get3_def numeral_eq_Suc)

section \<open>Properties of the search\<close>








lemma arm_search_raises_always:
  assumes "searchtype (prefs st) \<in> {''imagearm'', ''imagearmk''}"
    and "np_any data" "ints \<noteq> []"
  shows "\<exists>e. search_thresh_fftw ext st segment data dmind dtind (Some (Inr ints)) beamnum = Inl e"
  using assms
  by (auto simp: search_thresh_fftw_def search_thresh_arms_def Let_def ebind_def
      split: if_splits sum.splits prod.splits)




lemma unrecognized_mode_raises:
  assumes "fftmode (prefs st) \<noteq> ''cuda''" "fftmode (prefs st) \<noteq> ''fftw''"
  shows "snd (prep_and_search ext st segment data) \<noteq> Inr c"
    and "data_prep ext data = Inr d \<Longrightarrow>
         prep_and_search ext st segment data =
           ([''fftmode '' @ fftmode (prefs st) @ '' not recognized (cuda, fftw allowed)''],
            Inl UnboundLocalError)"
  using assms by (auto simp: prep_and_search_def Let_def split: sum.splits)

text \<open>
  C1.  With the mode string \<open>numpy\<close> (and a data preparation that succeeds),
  \<open>prep_and_search\<close> logs the warning and then raises UnboundLocalError: it returns no
  candidate collection.
\<close>

theorem prep_and_search_unrecognized_mode:
  "prep_and_search (ext\<lparr>data_prep := Inr\<rparr>)
     (st\<lparr>prefs := (prefs st)\<lparr>fftmode := ''numpy''\<rparr>\<rparr>) segment data =
     ([''fftmode numpy not recognized (cuda, fftw allowed)''], Inl UnboundLocalError)"
  by (simp add: prep_and_search_def)

end
